theory Spec2Isabelle
  imports Complex_Main "HOL-Library.Word" "HOL-Library.Sublist"
begin

section \<open>Floating-point values and C conversions\<close>

text \<open>
  The converter computes with \<open>float\<close> and \<open>double\<close>. A value of either type is
  modelled as a finite real or one of the three IEEE special values; zero carries no sign
  (it behaves as \<open>+0\<close>). The functions of this first part are the exact operations on
  these values; the rounding that follows every operation of the machine is defined after
  them (\<open>float_of\<close>, \<open>double_of\<close>) and applied by the conversion wherever the source
  stores or computes a \<open>float\<close> or a \<open>double\<close>. The special values follow IEEE 754,
  because the source relies on them: an invalid float sample (NaN, \<open>\<plusminus>\<close>Infinity) is
  passed on as the candidate range.
\<close>

datatype fp = Fin real | PInf | NInf | NaN

fun fp_neg :: "fp \<Rightarrow> fp" where
  "fp_neg (Fin x) = Fin (- x)"
| "fp_neg PInf = NInf"
| "fp_neg NInf = PInf"
| "fp_neg NaN = NaN"

fun fp_sub :: "fp \<Rightarrow> fp \<Rightarrow> fp" where
  "fp_sub NaN _ = NaN"
| "fp_sub _ NaN = NaN"
| "fp_sub (Fin x) (Fin y) = Fin (x - y)"
| "fp_sub (Fin x) PInf = NInf"
| "fp_sub (Fin x) NInf = PInf"
| "fp_sub PInf PInf = NaN"
| "fp_sub NInf NInf = NaN"
| "fp_sub PInf _ = PInf"
| "fp_sub NInf _ = NInf"

text \<open>The sign of an infinite product or quotient: the operand is positive, negative or zero.\<close>

fun fp_signed_inf :: "real \<Rightarrow> fp \<Rightarrow> fp" where
  "fp_signed_inf x i = (if x = 0 then NaN else if 0 < x then i else fp_neg i)"

fun fp_mul :: "fp \<Rightarrow> fp \<Rightarrow> fp" where
  "fp_mul NaN _ = NaN"
| "fp_mul _ NaN = NaN"
| "fp_mul (Fin x) (Fin y) = Fin (x * y)"
| "fp_mul (Fin x) PInf = fp_signed_inf x PInf"
| "fp_mul (Fin x) NInf = fp_signed_inf x NInf"
| "fp_mul PInf (Fin y) = fp_signed_inf y PInf"
| "fp_mul NInf (Fin y) = fp_signed_inf y NInf"
| "fp_mul PInf PInf = PInf"
| "fp_mul NInf NInf = PInf"
| "fp_mul PInf NInf = NInf"
| "fp_mul NInf PInf = NInf"

text \<open>
  Division writes out what HOL's total \<open>/\<close> hides: a finite non-zero value divided by
  zero is an infinity, \<open>0 / 0\<close> is NaN.
\<close>

fun fp_div :: "fp \<Rightarrow> fp \<Rightarrow> fp" where
  "fp_div NaN _ = NaN"
| "fp_div _ NaN = NaN"
| "fp_div (Fin x) (Fin y) = (if y = 0 then fp_signed_inf x PInf else Fin (x / y))"
| "fp_div (Fin x) _ = Fin 0"
| "fp_div PInf (Fin y) = (if 0 \<le> y then PInf else NInf)"
| "fp_div NInf (Fin y) = (if 0 \<le> y then NInf else PInf)"
| "fp_div _ _ = NaN"

text \<open>The comparison \<open><\<close>: false whenever an operand is NaN.\<close>

fun fp_lt :: "fp \<Rightarrow> fp \<Rightarrow> bool" where
  "fp_lt NaN _ = False"
| "fp_lt _ NaN = False"
| "fp_lt (Fin x) (Fin y) = (x < y)"
| "fp_lt (Fin x) PInf = True"
| "fp_lt NInf (Fin y) = True"
| "fp_lt NInf PInf = True"
| "fp_lt _ _ = False"

text \<open>\<open>atan2(y, x)\<close> of \<open>math.h\<close>, with the special cases of the C standard's Annex F.\<close>

fun fp_atan2 :: "fp \<Rightarrow> fp \<Rightarrow> fp" where
  "fp_atan2 NaN _ = NaN"
| "fp_atan2 _ NaN = NaN"
| "fp_atan2 (Fin y) (Fin x) =
     Fin (if 0 < x then arctan (y / x)
          else if x < 0 then (if 0 \<le> y then arctan (y / x) + pi else arctan (y / x) - pi)
          else if 0 < y then pi / 2
          else if y < 0 then - (pi / 2)
          else 0)"
| "fp_atan2 (Fin y) PInf = Fin 0"
| "fp_atan2 (Fin y) NInf = Fin (if 0 \<le> y then pi else - pi)"
| "fp_atan2 PInf (Fin x) = Fin (pi / 2)"
| "fp_atan2 NInf (Fin x) = Fin (- (pi / 2))"
| "fp_atan2 PInf PInf = Fin (pi / 4)"
| "fp_atan2 PInf NInf = Fin (3 * pi / 4)"
| "fp_atan2 NInf PInf = Fin (- (pi / 4))"
| "fp_atan2 NInf NInf = Fin (- (3 * pi / 4))"

text \<open>\<open>hypot(x, y)\<close> of \<open>math.h\<close>: an infinite operand gives \<open>+\<close>Infinity, even beside a NaN.\<close>

fun fp_hypot :: "fp \<Rightarrow> fp \<Rightarrow> fp" where
  "fp_hypot PInf _ = PInf"
| "fp_hypot NInf _ = PInf"
| "fp_hypot _ PInf = PInf"
| "fp_hypot _ NInf = PInf"
| "fp_hypot NaN _ = NaN"
| "fp_hypot _ NaN = NaN"
| "fp_hypot (Fin x) (Fin y) = Fin (sqrt (x * x + y * y))"

fun fp_abs :: "fp \<Rightarrow> fp" where
  "fp_abs (Fin x) = Fin \<bar>x\<bar>"
| "fp_abs PInf = PInf"
| "fp_abs NInf = PInf"
| "fp_abs NaN = NaN"

text \<open>
  Rounding to the nearest value of a binary format, ties to the value with an even
  significand (the default mode of IEEE 754). \<open>rne\<close> rounds a real to the nearest
  integer, ties to even. \<open>round_to p emin emax\<close> rounds to \<open>p\<close> significant bits, where
  \<open>2 powi emin\<close> is the smallest positive (subnormal) value and \<open>2 powi emax\<close> the first
  power of two that is no longer finite: the unit in the last place of \<open>x\<close> is
  \<open>2 powi e\<close>, and a result of magnitude \<open>2 powi emax\<close> is an infinity.
\<close>

definition rne :: "real \<Rightarrow> int" where
  "rne y =
     (let f = \<lfloor>y\<rfloor>
      in if y - of_int f < 1 / 2 then f
         else if 1 / 2 < y - of_int f then f + 1
         else if even f then f else f + 1)"

definition round_to :: "nat \<Rightarrow> int \<Rightarrow> int \<Rightarrow> real \<Rightarrow> fp" where
  "round_to p emin emax x =
     (if x = 0 then Fin 0
      else
        (let e = max (\<lfloor>log 2 \<bar>x\<bar>\<rfloor> - int p + 1) emin;
             y = of_int (rne (x / 2 powi e)) * 2 powi e
         in if 2 powi emax \<le> \<bar>y\<bar> then (if 0 < x then PInf else NInf) else Fin y))"

fun fp_round :: "nat \<Rightarrow> int \<Rightarrow> int \<Rightarrow> fp \<Rightarrow> fp" where
  "fp_round p emin emax (Fin x) = round_to p emin emax x"
| "fp_round p emin emax PInf = PInf"
| "fp_round p emin emax NInf = NInf"
| "fp_round p emin emax NaN = NaN"

text \<open>
  \<open>float\<close> is IEEE binary32 (24 significant bits) and \<open>double\<close> is binary64 (53 bits).
  \<open>float_of\<close> is the conversion to \<open>float\<close> (the initialisations of lines 191, 192 and
  197, the argument and the store of line 226 and 227) and the rounding of a \<open>float\<close>
  operation; \<open>double_of\<close> is the rounding of a \<open>double\<close> operation. The conversion of a
  \<open>float\<close> to \<open>double\<close> is exact and not written.
\<close>

definition float_of :: "fp \<Rightarrow> fp" where
  "float_of = fp_round 24 (- 149) 128"

definition double_of :: "fp \<Rightarrow> fp" where
  "double_of = fp_round 53 (- 1074) 1024"

text \<open>
  The conversion of a floating value to \<open>int\<close> (the cast \<open>(int)\<close> of line 202 and the
  initialisation of \<open>index\<close> in line 212) discards the fractional part, rounding toward
  zero. It is undefined for NaN, for an infinity and for a value whose integral part is
  not a 32-bit \<open>int\<close>: \<open>None\<close>.
\<close>

definition c_trunc :: "real \<Rightarrow> int" where
  "c_trunc x = (if 0 \<le> x then \<lfloor>x\<rfloor> else \<lceil>x\<rceil>)"

fun fp_to_int :: "fp \<Rightarrow> int option" where
  "fp_to_int (Fin x) =
     (if - (2 ^ 31) \<le> c_trunc x \<and> c_trunc x < 2 ^ 31 then Some (c_trunc x) else None)"
| "fp_to_int _ = None"

text \<open>
  The quotient of two \<open>int\<close>s in C++ rounds toward zero (HOL's \<open>div\<close> rounds down).
  The values of type \<open>int\<close> themselves are modelled as unbounded integers: the additions
  and multiplications of \<open>convert\<close> are assumed not to overflow.
\<close>

definition c_div :: "int \<Rightarrow> int \<Rightarrow> int" where
  "c_div a b = sgn a * sgn b * (\<bar>a\<bar> div \<bar>b\<bar>)"

section \<open>The data model\<close>

text \<open>
  \<open>sensor_msgs::Image\<close>, as \<open>convert\<close> sees it: the byte buffer \<open>data\<close> is read through
  a \<open>const T*\<close>, so it is modelled as the list of its samples of type \<open>T\<close>; \<open>step\<close> is
  the length of a row in bytes.
\<close>

record 'a Image =
  height :: nat
  width :: nat
  step :: nat
  data :: "'a list"

text \<open>\<open>image_geometry::PinholeCameraModel\<close>: the intrinsics \<open>convert\<close> reads.\<close>

record PinholeCameraModel =
  cx :: fp
  cy :: fp
  fx :: fp

text \<open>\<open>sensor_msgs::LaserScan\<close>: the fields \<open>convert\<close> reads, and \<open>ranges\<close>, which it writes.\<close>

record LaserScan =
  angle_min :: fp
  angle_increment :: fp
  range_min :: fp
  range_max :: fp
  ranges :: "fp list"

text \<open>
  The data members of the class \<open>DepthImageToLaserScan\<close> (lines 267 to 271). The
  source writes them with a trailing underscore (\<open>scan_height_\<close>), which is not a
  name in Isabelle: here they end in \<open>_member\<close>.
\<close>

record DepthImageToLaserScan =
  scan_time_member :: fp
  range_min_member :: fp
  range_max_member :: fp
  scan_height_member :: int
  output_frame_id_member :: string

text \<open>
  \<open>DepthTraits<T>\<close> is declared in \<open>depth_traits.h\<close>, which is not among the sources.
  \<open>convert\<close> is a template over \<open>T\<close>; the model takes the members of \<open>DepthTraits<T>\<close>
  it uses as a record of functions, together with what the language supplies for \<open>T\<close>:
  the value \<open>T(1)\<close>, the implicit conversion of a \<open>T\<close> to a floating value (exact for
  both encodings below) and \<open>sizeof(T)\<close> (2 and 4 for them). A sample of the float
  encoding and the fields of the scan are values of type \<open>float\<close>; the model does not
  restrict them to the values of that format.
\<close>

record 'a DepthTraits =
  valid :: "'a \<Rightarrow> bool"
  toMeters :: "'a \<Rightarrow> fp"
  one :: 'a
  to_fp :: "'a \<Rightarrow> fp"
  size_of :: nat

text \<open>
  Modelled from the spec: \<open>DepthTraits<uint16_t>\<close> of the missing \<open>depth_traits.h\<close>.
  The spec (4.1): for the integer-millimetre encoding \<open>to_meters\<close> returns a \<open>double\<close>,
  the product with 0.001, and \<open>is_valid\<close> treats zero as invalid. The product of two
  \<open>double\<close>s is rounded, and so is the constant.
\<close>

definition uint16_traits :: "16 word DepthTraits" where
  "uint16_traits =
     \<lparr>valid = (\<lambda>depth. depth \<noteq> 0),
      toMeters = (\<lambda>depth. double_of (fp_mul (Fin (real (unat depth))) (double_of (Fin 0.001)))),
      one = 1,
      to_fp = (\<lambda>depth. Fin (real (unat depth))),
      size_of = 2\<rparr>"

text \<open>
  Modelled from the spec: \<open>DepthTraits<float>\<close> of the missing \<open>depth_traits.h\<close>.
  The spec (4.1): for the float-metre encoding \<open>to_meters\<close> is the identity and
  \<open>is_valid\<close> treats NaN and \<open>\<plusminus>\<close>Infinity as invalid, everything else as valid.
\<close>

definition float_traits :: "fp DepthTraits" where
  "float_traits =
     \<lparr>valid = (\<lambda>depth. case depth of Fin x \<Rightarrow> True | _ \<Rightarrow> False),
      toMeters = (\<lambda>depth. depth),
      one = Fin 1,
      to_fp = (\<lambda>depth. depth),
      size_of = 4\<rparr>"

section \<open>The reduction policy\<close>

text \<open>
  Modelled from the spec: the acceptance window of \<open>use_point\<close>, whose definition is
  not among the sources. The spec (4.2): a candidate strictly between \<open>range_min\<close> and
  \<open>range_max\<close> is in range.
\<close>

definition in_range :: "fp \<Rightarrow> fp \<Rightarrow> fp \<Rightarrow> bool" where
  "in_range r rmin rmax \<longleftrightarrow> fp_lt rmin r \<and> fp_lt r rmax"

text \<open>
  Modelled from the spec: \<open>use_point\<close> is declared in line 163 and defined in a source
  file that is not among the sources. The spec (4.2): the shortest in-range candidate
  seen so far is preferred; a candidate that is not in range never overwrites a value
  that is in range; a stored value that is not in range is replaced by a candidate that
  is, whatever their magnitudes. A bin that receives only candidates that are not in
  range keeps its sentinel (section 8), so a candidate that is not in range is never
  used, whatever the stored value.
\<close>

definition use_point :: "fp \<Rightarrow> fp \<Rightarrow> fp \<Rightarrow> fp \<Rightarrow> bool" where
  "use_point new_value old_value rmin rmax \<longleftrightarrow>
     in_range new_value rmin rmax \<and>
     (if in_range old_value rmin rmax then fp_lt new_value old_value else True)"

section \<open>The conversion\<close>

text \<open>
  Reading or writing outside a buffer and converting an unrepresentable floating value to
  \<open>int\<close> are undefined behaviour in C++. The source has no test and no exit for them
  (lines 205 to 230 contain no \<open>break\<close>, \<open>return\<close> or \<open>throw\<close>), so a run goes on: the
  read yields whatever the memory beside the buffer holds, the write lands there, the
  conversion yields some \<open>int\<close>. What these are is not determined by the program: the
  model takes them as a parameter, the platform, and every property below holds for
  every platform. The depth samples are addressed by their position \<open>v * row_step + u\<close>
  relative to the start of the buffer, the memory beside \<open>ranges\<close> by the index.
  The memory beside \<open>ranges\<close> is assumed to be disjoint from the scan and the image.
\<close>

record 'a platform =
  int_of_unrepresentable :: "fp \<Rightarrow> int"
  depth_outside :: "int \<Rightarrow> 'a"
  ranges_outside :: "int \<Rightarrow> fp"

text \<open>The kinds of undefined behaviour a run can meet.\<close>

datatype fault =
  OffsetNotRepresentable
| DepthOutOfBounds int nat
| IndexNotRepresentable nat
| RangesOutOfBounds int

text \<open>
  The state of a run: the output scan, whose \<open>ranges\<close> the loop mutates; the memory
  beside \<open>ranges\<close>, which a write at an index outside the array changes; and two ghost
  fields, which the source does not have: the pixels \<open>(v, u)\<close> whose depth sample has
  been read, in the order of reading, and the first undefined operation of the run, if
  there has been one.
\<close>

record run =
  scan_msg :: LaserScan
  outside :: "int \<Rightarrow> fp"
  visited :: "(int \<times> nat) list"
  fault :: "fault option"

text \<open>Recording an undefined operation: only the first one of a run is kept.\<close>

definition note_fault :: "fault option \<Rightarrow> run \<Rightarrow> run" where
  "note_fault f s = (case fault s of None \<Rightarrow> s\<lparr>fault := f\<rparr> | Some f' \<Rightarrow> s)"

text \<open>Lines 191 and 192: the principal point, stored in two \<open>float\<close>s.\<close>

definition center_x :: "PinholeCameraModel \<Rightarrow> fp" where
  "center_x cam_model = float_of (cx cam_model)"

definition center_y :: "PinholeCameraModel \<Rightarrow> fp" where
  "center_y cam_model = float_of (cy cam_model)"

text \<open>Line 200: \<open>row_step = depth_msg->step / sizeof(T)\<close>.\<close>

definition row_step :: "'a DepthTraits \<Rightarrow> 'a Image \<Rightarrow> nat" where
  "row_step T depth_msg = step depth_msg div size_of T"

text \<open>
  Line 208: \<open>depth_row[u]\<close>, where \<open>depth_row\<close> points \<open>v * row_step\<close> samples
  past the start of the buffer (lines 199, 203 and the increment of line 205).
  \<open>depth_at\<close> is the sample of the buffer at that position, \<open>None\<close> when the position is
  negative or not below the number of samples; \<open>sample_at\<close> is what the read yields,
  inside the buffer or not.
\<close>

definition depth_at :: "'a DepthTraits \<Rightarrow> 'a Image \<Rightarrow> int \<Rightarrow> nat \<Rightarrow> 'a option" where
  "depth_at T depth_msg v u =
     (let k = v * int (row_step T depth_msg) + int u
      in if 0 \<le> k \<and> k < int (length (data depth_msg)) then Some (data depth_msg ! nat k)
         else None)"

definition sample_at :: "'a platform \<Rightarrow> 'a DepthTraits \<Rightarrow> 'a Image \<Rightarrow> int \<Rightarrow> nat \<Rightarrow> 'a" where
  "sample_at P T depth_msg v u =
     (case depth_at T depth_msg v u of
        Some depth \<Rightarrow> depth
      | None \<Rightarrow> depth_outside P (v * int (row_step T depth_msg) + int u))"

text \<open>
  Lines 196 and 197. \<open>unit_scaling\<close> is a \<open>double\<close>; \<open>constant_x\<close> is the quotient of two
  \<open>double\<close>s, stored in a \<open>float\<close>.
\<close>

definition unit_scaling :: "'a DepthTraits \<Rightarrow> fp" where
  "unit_scaling T = toMeters T (one T)"

definition constant_x :: "'a DepthTraits \<Rightarrow> PinholeCameraModel \<Rightarrow> fp" where
  "constant_x T cam_model = float_of (double_of (fp_div (unit_scaling T) (fx cam_model)))"

text \<open>
  \<open>u - center_x\<close> in lines 211 and 219: the \<open>int\<close> \<open>u\<close> is converted to \<open>float\<close> and the
  difference is a \<open>float\<close>.
\<close>

definition column_offset :: "PinholeCameraModel \<Rightarrow> nat \<Rightarrow> fp" where
  "column_offset cam_model u = float_of (fp_sub (float_of (Fin (real u))) (center_x cam_model))"

text \<open>
  \<open>atan2\<close> and \<open>hypot\<close> of \<open>math.h\<close> on \<open>double\<close>s: the \<open>double\<close> nearest to the exact
  result.
\<close>

definition lib_atan2 :: "fp \<Rightarrow> fp \<Rightarrow> fp" where
  "lib_atan2 y x = double_of (fp_atan2 y x)"

definition lib_hypot :: "fp \<Rightarrow> fp \<Rightarrow> fp" where
  "lib_hypot x y = double_of (fp_hypot x y)"

text \<open>
  Line 211: the bearing \<open>th\<close> of column \<open>u\<close>. The product is one of two \<open>double\<close>s.
\<close>

definition bearing :: "'a DepthTraits \<Rightarrow> PinholeCameraModel \<Rightarrow> nat \<Rightarrow> fp" where
  "bearing T cam_model u =
     fp_neg (lib_atan2 (double_of (fp_mul (column_offset cam_model u) (constant_x T cam_model)))
       (unit_scaling T))"

text \<open>
  Line 212: the quotient that initialises \<open>index\<close>, computed in \<open>double\<close>, and its
  conversion to \<open>int\<close>: \<open>bin_index\<close> is \<open>None\<close> where the conversion is undefined,
  \<open>index_at\<close> is the value the run goes on with.
\<close>

definition bin_quotient :: "'a DepthTraits \<Rightarrow> PinholeCameraModel \<Rightarrow> LaserScan \<Rightarrow> nat \<Rightarrow> fp" where
  "bin_quotient T cam_model scan u =
     double_of (fp_div (double_of (fp_sub (bearing T cam_model u) (angle_min scan)))
       (angle_increment scan))"

definition bin_index :: "'a DepthTraits \<Rightarrow> PinholeCameraModel \<Rightarrow> LaserScan \<Rightarrow> nat \<Rightarrow> int option" where
  "bin_index T cam_model scan u = fp_to_int (bin_quotient T cam_model scan u)"

definition index_at ::
  "'a platform \<Rightarrow> 'a DepthTraits \<Rightarrow> PinholeCameraModel \<Rightarrow> LaserScan \<Rightarrow> nat \<Rightarrow> int" where
  "index_at P T cam_model scan u =
     (case bin_index T cam_model scan u of
        Some index \<Rightarrow> index
      | None \<Rightarrow> int_of_unrepresentable P (bin_quotient T cam_model scan u))"

text \<open>
  Lines 210 and 214 to 222: the candidate range \<open>r\<close> of a pixel, a \<open>double\<close>. The
  two products of line 219 are products of \<open>float\<close>s.
\<close>

definition candidate :: "'a DepthTraits \<Rightarrow> PinholeCameraModel \<Rightarrow> nat \<Rightarrow> 'a \<Rightarrow> fp" where
  "candidate T cam_model u depth =
     (if valid T depth then
        (let x = float_of (fp_mul (float_of (fp_mul (column_offset cam_model u) (to_fp T depth)))
                   (constant_x T cam_model));
             z = toMeters T depth
         in lib_hypot x z)
      else to_fp T depth)"

text \<open>
  Lines 208 to 228: the body of the inner loop, at row \<open>v\<close> and column \<open>u\<close>.
  \<open>use_point\<close> takes \<open>float\<close>s and an element of \<open>ranges\<close> is a \<open>float\<close>: the candidate
  is converted at both places. At an index outside \<open>ranges\<close> the element read and
  written is the memory beside the array.
\<close>

definition pixel ::
  "'a platform \<Rightarrow> 'a DepthTraits \<Rightarrow> 'a Image \<Rightarrow> PinholeCameraModel \<Rightarrow> int \<Rightarrow> nat \<Rightarrow> run \<Rightarrow> run" where
  "pixel P T depth_msg cam_model v u s =
     (let depth = sample_at P T depth_msg v u;
          s1 = note_fault
                 (if depth_at T depth_msg v u = None then Some (DepthOutOfBounds v u) else None)
                 (s\<lparr>visited := visited s @ [(v, u)]\<rparr>);
          r = float_of (candidate T cam_model u depth);
          index = index_at P T cam_model (scan_msg s1) u;
          s2 = note_fault
                 (if bin_index T cam_model (scan_msg s1) u = None
                  then Some (IndexNotRepresentable u) else None) s1
      in if 0 \<le> index \<and> index < int (length (ranges (scan_msg s2)))
         then
           (if use_point r (ranges (scan_msg s2) ! nat index)
                 (range_min (scan_msg s2)) (range_max (scan_msg s2))
            then s2\<lparr>scan_msg := (scan_msg s2)\<lparr>ranges := (ranges (scan_msg s2))[nat index := r]\<rparr>\<rparr>
            else s2)
         else
           (let s3 = note_fault (Some (RangesOutOfBounds index)) s2
            in if use_point r (outside s3 index)
                    (range_min (scan_msg s3)) (range_max (scan_msg s3))
               then s3\<lparr>outside := (outside s3)(index := r)\<rparr>
               else s3))"

text \<open>
  Line 206: the loop over the columns of row \<open>v\<close>, from column \<open>u\<close> on. The loop has no
  exit but its bound. \<open>width\<close> is assumed to fit an \<open>int\<close>.
\<close>

function col_loop ::
  "'a platform \<Rightarrow> 'a DepthTraits \<Rightarrow> 'a Image \<Rightarrow> PinholeCameraModel \<Rightarrow> int \<Rightarrow> nat \<Rightarrow> run \<Rightarrow> run" where
  "col_loop P T depth_msg cam_model v u s =
     (if u < width depth_msg
      then col_loop P T depth_msg cam_model v (Suc u) (pixel P T depth_msg cam_model v u s)
      else s)"
  by pat_completeness auto
termination
  by (relation "measure (\<lambda>(P, T, depth_msg, cam_model, v, u, s). width depth_msg - u)") auto

text \<open>
  Line 205: the loop over the rows, from row \<open>v\<close> up to the row before \<open>stop\<close>. It has no
  exit but its bound either.
\<close>

function row_loop ::
  "'a platform \<Rightarrow> 'a DepthTraits \<Rightarrow> 'a Image \<Rightarrow> PinholeCameraModel \<Rightarrow> int \<Rightarrow> int \<Rightarrow> run \<Rightarrow> run" where
  "row_loop P T depth_msg cam_model stop v s =
     (if v < stop
      then row_loop P T depth_msg cam_model stop (v + 1) (col_loop P T depth_msg cam_model v 0 s)
      else s)"
  by pat_completeness auto
termination
  by (relation "measure (\<lambda>(P, T, depth_msg, cam_model, stop, v, s). nat (stop - v))") auto

text \<open>
  The equations of the two loops are unfolded one iteration at a time, where a proof asks
  for it.
\<close>

declare col_loop.simps [simp del]
declare row_loop.simps [simp del]

text \<open>
  Line 202: \<open>offset = (int)(center_y - scan_height/2)\<close>. The quotient is one of two
  \<open>int\<close>s; it is converted to \<open>float\<close> and the difference is a \<open>float\<close>.
  \<open>row_offset\<close> is \<open>None\<close> where the conversion to \<open>int\<close> is undefined, \<open>start_row\<close> is
  the value the run goes on with.
\<close>

definition row_difference :: "PinholeCameraModel \<Rightarrow> int \<Rightarrow> fp" where
  "row_difference cam_model scan_height =
     float_of (fp_sub (center_y cam_model) (float_of (Fin (of_int (c_div scan_height 2)))))"

definition row_offset :: "PinholeCameraModel \<Rightarrow> int \<Rightarrow> int option" where
  "row_offset cam_model scan_height = fp_to_int (row_difference cam_model scan_height)"

definition start_row :: "'a platform \<Rightarrow> PinholeCameraModel \<Rightarrow> int \<Rightarrow> int" where
  "start_row P cam_model scan_height =
     (case row_offset cam_model scan_height of
        Some offset \<Rightarrow> offset
      | None \<Rightarrow> int_of_unrepresentable P (row_difference cam_model scan_height))"

text \<open>
  Lines 187 to 231: \<open>convert<T>\<close>. \<open>self\<close> is the converter object, whose member
  \<open>scan_height_\<close> (here \<open>scan_height_member\<close>) bounds the row loop; \<open>scan_height\<close> is the argument.
\<close>

definition convert ::
  "'a platform \<Rightarrow> 'a DepthTraits \<Rightarrow> DepthImageToLaserScan \<Rightarrow> 'a Image \<Rightarrow> PinholeCameraModel \<Rightarrow>
     LaserScan \<Rightarrow> int \<Rightarrow> run" where
  "convert P T self depth_msg cam_model scan scan_height =
     (let s0 = note_fault
                 (if row_offset cam_model scan_height = None then Some OffsetNotRepresentable
                  else None)
                 \<lparr>scan_msg = scan, outside = ranges_outside P, visited = [], fault = None\<rparr>;
          offset = start_row P cam_model scan_height
      in row_loop P T depth_msg cam_model (offset + scan_height_member self) offset s0)"

section \<open>Vocabulary of the properties\<close>

text \<open>
  Two scans have the same shell when they agree on everything but the contents of
  \<open>ranges\<close>: the four scalar fields and the number of bins.
\<close>

definition same_shell :: "LaserScan \<Rightarrow> LaserScan \<Rightarrow> bool" where
  "same_shell a b \<longleftrightarrow>
     angle_min a = angle_min b \<and> angle_increment a = angle_increment b \<and>
     range_min a = range_min b \<and> range_max a = range_max b \<and>
     length (ranges a) = length (ranges b)"

text \<open>The pixels of \<open>n\<close> rows of \<open>w\<close> columns from row \<open>offset\<close> on, in row-major order.\<close>

definition window_pixels :: "int \<Rightarrow> int \<Rightarrow> nat \<Rightarrow> (int \<times> nat) list" where
  "window_pixels offset n w = concat (map (\<lambda>v. map (Pair v) [0..<w]) [offset..offset + n - 1])"

text \<open>The bin index of column \<open>u\<close> is representable and lies inside \<open>ranges\<close>.\<close>

definition bin_ok :: "'a DepthTraits \<Rightarrow> PinholeCameraModel \<Rightarrow> LaserScan \<Rightarrow> nat \<Rightarrow> bool" where
  "bin_ok T cam_model scan u \<longleftrightarrow>
     (case bin_index T cam_model scan u of
        None \<Rightarrow> False
      | Some index \<Rightarrow> 0 \<le> index \<and> index < int (length (ranges scan)))"

text \<open>
  A well-formed image: the buffer holds \<open>height\<close> rows of \<open>row_step\<close> samples, and a
  row is at least \<open>width\<close> samples long. \<open>convert\<close> never reads \<open>height\<close>; it enters
  the properties only through this predicate.
\<close>

definition wf_image :: "'a DepthTraits \<Rightarrow> 'a Image \<Rightarrow> bool" where
  "wf_image T depth_msg \<longleftrightarrow>
     width depth_msg \<le> row_step T depth_msg \<and>
     length (data depth_msg) = height depth_msg * row_step T depth_msg"

text \<open>
  The order in which the sentinel \<open>+\<close>Infinity counts as the largest range:
  \<open>closer_eq a b\<close> holds when \<open>b\<close> is the sentinel, or both are finite and
  \<open>a \<le> b\<close>.
\<close>

fun closer_eq :: "fp \<Rightarrow> fp \<Rightarrow> bool" where
  "closer_eq _ PInf = True"
| "closer_eq (Fin x) (Fin y) = (x \<le> y)"
| "closer_eq _ _ = False"

text \<open>
  The value a bin holds after lines 226 to 228 have offered it the candidate \<open>r\<close>:
  the candidate if \<open>use_point\<close> accepts it, the stored value otherwise.
\<close>

definition reduced :: "fp \<Rightarrow> fp \<Rightarrow> fp \<Rightarrow> fp \<Rightarrow> fp" where
  "reduced r old rmin rmax = (if use_point r old rmin rmax then r else old)"

section \<open>Example inputs\<close>

text \<open>
  Concrete inputs at which the properties below are evaluated: a camera with focal length
  1, a scan with bins of one radian that accepts ranges below 10, an image of the float
  or the integer encoding with densely packed rows, and a converter object.
\<close>

definition example_camera :: "real \<Rightarrow> real \<Rightarrow> PinholeCameraModel" where
  "example_camera x y = \<lparr>cx = Fin x, cy = Fin y, fx = Fin 1\<rparr>"

definition example_scan :: "real \<Rightarrow> real \<Rightarrow> nat \<Rightarrow> LaserScan" where
  "example_scan a lo n =
     \<lparr>angle_min = Fin a, angle_increment = Fin 1, range_min = Fin lo, range_max = Fin 10,
      ranges = replicate n PInf\<rparr>"

definition example_image :: "'a DepthTraits \<Rightarrow> nat \<Rightarrow> nat \<Rightarrow> 'a list \<Rightarrow> 'a Image" where
  "example_image T h w samples = \<lparr>height = h, width = w, step = w * size_of T, data = samples\<rparr>"

text \<open>
  A platform for the examples: an undefined conversion to \<open>int\<close> gives the least
  \<open>int\<close>, the memory beside the depth buffer holds the sample \<open>stray\<close> and the memory
  beside \<open>ranges\<close> holds NaN.
\<close>

definition example_platform :: "'a \<Rightarrow> 'a platform" where
  "example_platform stray =
     \<lparr>int_of_unrepresentable = (\<lambda>x. - (2 ^ 31)), depth_outside = (\<lambda>k. stray),
      ranges_outside = (\<lambda>i. NaN)\<rparr>"

definition example_converter :: "int \<Rightarrow> DepthImageToLaserScan" where
  "example_converter n =
     \<lparr>scan_time_member = Fin (1 / 30), range_min_member = Fin 0.45, range_max_member = Fin 10,
      scan_height_member = n, output_frame_id_member = ''camera_depth_frame''\<rparr>"

section \<open>Facts about the model\<close>

subsection \<open>Rounding: representable values and bounds\<close>

lemma rne_of_int [simp]: "rne (of_int n) = n"
  by (simp add: rne_def)

lemma round_to_exact:
  assumes x: "x = of_int m * 2 powi e" and m: "\<bar>m\<bar> < 2 ^ p" and e: "emin \<le> e"
    and fin: "\<bar>x\<bar> < 2 powi emax"
  shows "round_to p emin emax x = Fin x"
proof (cases "x = 0")
  case True
  then show ?thesis by (simp add: round_to_def)
next
  case False
  define E where "E = max (\<lfloor>log 2 \<bar>x\<bar>\<rfloor> - int p + 1) emin"
  have pos: "0 < \<bar>x\<bar>" using False by simp
  have "real_of_int \<bar>m\<bar> < 2 ^ p"
    using m by (metis of_int_less_iff of_int_numeral of_int_power)
  then have "\<bar>x\<bar> < 2 ^ p * 2 powi e"
    unfolding x abs_mult by (simp add: power_int_def)
  also have "\<dots> = 2 powr (real_of_int (int p + e))"
    by (simp add: powr_add powr_realpow powr_real_of_int' power_int_add)
  finally have "log 2 \<bar>x\<bar> < real_of_int (int p + e)"
    using pos by (simp add: log_less_iff del: of_int_add)
  then have "\<lfloor>log 2 \<bar>x\<bar>\<rfloor> < int p + e"
    by (simp add: floor_less_iff)
  then have Ee: "E \<le> e"
    using e by (simp add: E_def)
  have "x / 2 powi E = of_int m * 2 powi (e - E)"
    unfolding x by (simp add: power_int_diff)
  also have "\<dots> = of_int (m * 2 ^ nat (e - E))"
    using Ee by (simp add: power_int_def)
  finally have q: "x / 2 powi E = of_int (m * 2 ^ nat (e - E))" .
  have nz: "(2::real) powi E \<noteq> 0" by simp
  have "of_int (rne (x / 2 powi E)) * 2 powi E = (x / 2 powi E) * 2 powi E"
    unfolding q rne_of_int ..
  also have "\<dots> = x" using nz by (simp del: power_int_eq_0_iff)
  finally have "of_int (rne (x / 2 powi E)) * 2 powi E = x" .
  then show ?thesis
    using False fin unfolding round_to_def Let_def E_def [symmetric] by simp
qed


lemma float_of_quarters:
  assumes "\<bar>m\<bar> < 2 ^ 24"
  shows "float_of (Fin (of_int m / 4)) = Fin (of_int m / 4)"
proof -
  have "real_of_int \<bar>m\<bar> < 2 ^ 24"
    using assms by (metis of_int_less_iff of_int_numeral of_int_power)
  then have "\<bar>real_of_int m / 4\<bar> < 2 powi 128" by (simp add: power_int_def)
  then show ?thesis
    unfolding float_of_def fp_round.simps
    by (intro round_to_exact [where m = m and e = "- 2"]) (use assms in \<open>simp_all add: power_int_def power2_eq_square\<close>)
qed

lemma double_of_quarters:
  assumes "\<bar>m\<bar> < 2 ^ 24"
  shows "double_of (Fin (of_int m / 4)) = Fin (of_int m / 4)"
proof -
  have "real_of_int \<bar>m\<bar> < 2 ^ 24"
    using assms by (metis of_int_less_iff of_int_numeral of_int_power)
  then have "\<bar>real_of_int m / 4\<bar> < 2 powi 1024" by (simp add: power_int_def)
  then show ?thesis
    unfolding double_of_def fp_round.simps
    by (intro round_to_exact [where m = m and e = "- 2"]) (use assms in \<open>simp_all add: power_int_def power2_eq_square\<close>)
qed

lemma rne_close: "\<bar>real_of_int (rne t) - t\<bar> \<le> 1 / 2"
proof -
  have "real_of_int \<lfloor>t\<rfloor> \<le> t" "t < real_of_int \<lfloor>t\<rfloor> + 1"
    by linarith+
  then show ?thesis
    by (auto simp add: rne_def Let_def)
qed

lemma round_to_normal:
  assumes x: "0 < x" and low: "2 powi (emin + int p) \<le> x" and high: "2 * x < 2 powi emax"
    and p: "0 < p"
  shows "\<exists>y. round_to p emin emax x = Fin y \<and> x / 2 \<le> y \<and> y \<le> 2 * x"
proof -
  define L where "L = \<lfloor>log 2 \<bar>x\<bar>\<rfloor>"
  define e where "e = max (L - int p + 1) emin"
  define t where "t = x / 2 powi e"
  define y where "y = real_of_int (rne t) * 2 powi e"
  have ax: "\<bar>x\<bar> = x" using x by simp
  have "2 powr (real_of_int (emin + int p)) \<le> x"
    using low powr_real_of_int' [of 2 "emin + int p"] by (simp del: of_int_add)
  then have "real_of_int (emin + int p) \<le> log 2 x"
    using x by (simp add: le_log_iff del: of_int_add)
  then have Lp: "emin + int p \<le> L"
    unfolding L_def ax by (simp add: le_floor_iff del: of_int_add)
  then have e: "e = L - int p + 1"
    by (simp add: e_def)
  have "2 powr (real_of_int L) \<le> x"
    using floor_log_eq_powr_iff [of x 2 L] x by (simp add: L_def)
  then have xL: "2 powi L \<le> x"
    using powr_real_of_int' [of 2 L] by simp
  have "e \<le> L" using p by (simp add: e)
  then have "(2::real) powi e \<le> 2 powi L"
    by (intro power_int_increasing) simp_all
  then have "2 powi e \<le> x" using xL by simp
  moreover have pos: "0 < (2::real) powi e" by simp
  ultimately have t1: "1 \<le> t"
    by (simp add: t_def field_simps)
  have xt: "x = t * 2 powi e"
    by (simp add: t_def)
  have c: "\<bar>real_of_int (rne t) - t\<bar> \<le> 1 / 2"
    by (rule rne_close)
  have "t / 2 \<le> real_of_int (rne t)" "real_of_int (rne t) \<le> 2 * t"
    using c t1 by linarith+
  then have "t / 2 * 2 powi e \<le> y" "y \<le> 2 * t * 2 powi e"
    unfolding y_def using pos by (simp_all add: mult_right_mono)
  then have b: "x / 2 \<le> y" "y \<le> 2 * x"
    by (simp_all add: xt)
  then have "\<bar>y\<bar> < 2 powi emax"
    using x high by simp
  then have "round_to p emin emax x = Fin y"
    using x unfolding round_to_def Let_def L_def [symmetric] e_def [symmetric] t_def [symmetric]
      y_def [symmetric] by simp
  with b show ?thesis by blast
qed

lemma double_of_normal:
  assumes "1 / 2 ^ 64 \<le> x" and "x \<le> 2 ^ 64"
  shows "\<exists>y. double_of (Fin x) = Fin y \<and> x / 2 \<le> y \<and> y \<le> 2 * x"
proof -
  have a: "(2::real) powi (- 1074 + int 53) \<le> 1 / 2 ^ 64"
    by (simp add: power_int_def field_simps)
  have b: "2 * (2::real) ^ 64 < 2 powi 1024"
    by (simp add: power_int_def)
  have "0 < x" using assms(1) by (smt (verit) zero_less_divide_1_iff zero_less_numeral zero_less_power)
  then show ?thesis
    unfolding double_of_def fp_round.simps
    using assms a b by (intro round_to_normal) linarith+
qed

lemma float_of_normal:
  assumes "1 / 2 ^ 64 \<le> x" and "x \<le> 2 ^ 64"
  shows "\<exists>y. float_of (Fin x) = Fin y \<and> x / 2 \<le> y \<and> y \<le> 2 * x"
proof -
  have a: "(2::real) powi (- 149 + int 24) \<le> 1 / 2 ^ 64"
    by (simp add: power_int_def field_simps)
  have b: "2 * (2::real) ^ 64 < 2 powi 128"
    by (simp add: power_int_def)
  have "0 < x" using assms(1) by (smt (verit) zero_less_divide_1_iff zero_less_numeral zero_less_power)
  then show ?thesis
    unfolding float_of_def fp_round.simps
    using assms a b by (intro round_to_normal) linarith+
qed

lemma float_of_zero [simp]: "float_of (Fin 0) = Fin 0"
  by (simp add: float_of_def round_to_def)

lemma double_of_zero [simp]: "double_of (Fin 0) = Fin 0"
  by (simp add: double_of_def round_to_def)

lemma float_of_special [simp]: "float_of PInf = PInf" "float_of NInf = NInf" "float_of NaN = NaN"
  by (simp_all add: float_of_def)

lemma double_of_special [simp]: "double_of PInf = PInf" "double_of NInf = NInf" "double_of NaN = NaN"
  by (simp_all add: double_of_def)

subsection \<open>The two pixel encodings\<close>

lemma float_traits_simps [simp]:
  "valid float_traits d = (case d of Fin x \<Rightarrow> True | _ \<Rightarrow> False)"
  "toMeters float_traits d = d" "one float_traits = Fin 1" "to_fp float_traits d = d"
  "size_of float_traits = 4"
  by (simp_all add: float_traits_def)

lemma uint16_traits_simps [simp]:
  "valid uint16_traits w = (w \<noteq> 0)"
  "toMeters uint16_traits w = double_of (fp_mul (Fin (real (unat w))) (double_of (Fin 0.001)))"
  "one uint16_traits = 1"
  "to_fp uint16_traits w = Fin (real (unat w))"
  "size_of uint16_traits = 2"
  by (simp_all add: uint16_traits_def)

subsection \<open>The shell of the scan and a single pixel\<close>

lemma note_fault_simps [simp]:
  "scan_msg (note_fault f s) = scan_msg s" "outside (note_fault f s) = outside s"
  "visited (note_fault f s) = visited s"
  "fault (note_fault f s) = (case fault s of None \<Rightarrow> f | Some g \<Rightarrow> Some g)"
  by (simp_all add: note_fault_def split: option.splits)

lemma same_shell_refl [simp]: "same_shell a a"
  by (simp add: same_shell_def)

lemma same_shell_trans: "same_shell a b \<Longrightarrow> same_shell b c \<Longrightarrow> same_shell a c"
  by (simp add: same_shell_def)

lemma bin_quotient_shell:
  "same_shell a b \<Longrightarrow> bin_quotient T cam_model a u = bin_quotient T cam_model b u"
  by (simp add: bin_quotient_def same_shell_def)

lemma bin_index_shell: "same_shell a b \<Longrightarrow> bin_index T cam_model a u = bin_index T cam_model b u"
  by (simp add: bin_index_def bin_quotient_shell)

lemma index_at_shell: "same_shell a b \<Longrightarrow> index_at P T cam_model a u = index_at P T cam_model b u"
  using bin_index_shell [of a b T cam_model u] bin_quotient_shell [of a b T cam_model u]
  by (simp add: index_at_def split: option.splits)

text \<open>What a pixel does to the bins, to the ghost fields and to the shell.\<close>

lemma pixel_ranges:
  "ranges (scan_msg (pixel P T depth_msg cam_model v u s)) =
     (if 0 \<le> index_at P T cam_model (scan_msg s) u \<and>
         index_at P T cam_model (scan_msg s) u < int (length (ranges (scan_msg s)))
      then (ranges (scan_msg s))
             [nat (index_at P T cam_model (scan_msg s) u) :=
                reduced (float_of (candidate T cam_model u (sample_at P T depth_msg v u)))
                  (ranges (scan_msg s) ! nat (index_at P T cam_model (scan_msg s) u))
                  (range_min (scan_msg s)) (range_max (scan_msg s))]
      else ranges (scan_msg s))"
  by (simp add: pixel_def Let_def reduced_def)

lemma pixel_scan_msg:
  "scan_msg (pixel P T depth_msg cam_model v u s) =
     (scan_msg s)\<lparr>ranges := ranges (scan_msg (pixel P T depth_msg cam_model v u s))\<rparr>"
  by (simp add: pixel_def Let_def)

lemma pixel_shell: "same_shell (scan_msg s) (scan_msg (pixel P T depth_msg cam_model v u s))"
proof -
  have "same_shell (scan_msg s)
          ((scan_msg s)\<lparr>ranges := ranges (scan_msg (pixel P T depth_msg cam_model v u s))\<rparr>)"
    by (simp add: same_shell_def pixel_ranges)
  then show ?thesis
    using pixel_scan_msg [of P T depth_msg cam_model v u s] by simp
qed

lemma pixel_visited [simp]:
  "visited (pixel P T depth_msg cam_model v u s) = visited s @ [(v, u)]"
  by (simp add: pixel_def Let_def)

lemma pixel_fault:
  "fault (pixel P T depth_msg cam_model v u s) =
     (case fault s of
        Some f \<Rightarrow> Some f
      | None \<Rightarrow>
          (case depth_at T depth_msg v u of
             None \<Rightarrow> Some (DepthOutOfBounds v u)
           | Some depth \<Rightarrow>
               (case bin_index T cam_model (scan_msg s) u of
                  None \<Rightarrow> Some (IndexNotRepresentable u)
                | Some index \<Rightarrow>
                    if 0 \<le> index \<and> index < int (length (ranges (scan_msg s))) then None
                    else Some (RangesOutOfBounds index))))"
  by (simp add: pixel_def Let_def index_at_def split: option.splits)

lemma pixel_fault_None:
  "fault (pixel P T depth_msg cam_model v u s) = None \<longleftrightarrow>
     fault s = None \<and> depth_at T depth_msg v u \<noteq> None \<and> bin_ok T cam_model (scan_msg s) u"
  by (simp add: pixel_fault bin_ok_def split: option.splits)


lemma sample_at_inside [simp]:
  "depth_at T depth_msg v u = Some depth \<Longrightarrow> sample_at P T depth_msg v u = depth"
  by (simp add: sample_at_def)

subsection \<open>Invariants of the two loops\<close>

lemma col_loop_invariant:
  assumes step: "\<And>u s. u0 \<le> u \<Longrightarrow> u < width depth_msg \<Longrightarrow> I s \<Longrightarrow>
                   I (pixel P T depth_msg cam_model v u s)"
    and init: "I s0"
  shows "I (col_loop P T depth_msg cam_model v u0 s0)"
  using init step
proof (induction P T depth_msg cam_model v u0 s0 rule: col_loop.induct)
  case (1 P T depth_msg cam_model v u s)
  show ?case
  proof (cases "u < width depth_msg")
    case True
    have "I (pixel P T depth_msg cam_model v u s)"
      using 1 True by simp
    then have "I (col_loop P T depth_msg cam_model v (Suc u) (pixel P T depth_msg cam_model v u s))"
      using 1 True by simp
    then show ?thesis
      using True by (subst col_loop.simps) simp
  next
    case False
    then show ?thesis
      using 1 by (subst col_loop.simps) simp
  qed
qed

lemma row_loop_invariant:
  assumes step: "\<And>v u s. v0 \<le> v \<Longrightarrow> v < stop \<Longrightarrow> u < width depth_msg \<Longrightarrow> I s \<Longrightarrow>
                   I (pixel P T depth_msg cam_model v u s)"
    and init: "I s0"
  shows "I (row_loop P T depth_msg cam_model stop v0 s0)"
  using init step
proof (induction P T depth_msg cam_model stop v0 s0 rule: row_loop.induct)
  case (1 P T depth_msg cam_model stop v s)
  show ?case
  proof (cases "v < stop")
    case True
    have "I (col_loop P T depth_msg cam_model v 0 s)"
      by (rule col_loop_invariant [where I = I]) (use 1 True in simp_all)
    then have "I (row_loop P T depth_msg cam_model stop (v + 1) (col_loop P T depth_msg cam_model v 0 s))"
      using 1 True by simp
    then show ?thesis
      using True by (subst row_loop.simps) simp
  next
    case False
    then show ?thesis
      using 1 by (subst row_loop.simps) simp
  qed
qed

lemma row_loop_shell: "same_shell (scan_msg s) (scan_msg (row_loop P T depth_msg cam_model stop v s))"
  by (rule row_loop_invariant [where I = "\<lambda>s'. same_shell (scan_msg s) (scan_msg s')"])
    (auto intro: same_shell_trans pixel_shell)

subsection \<open>The pixels read by a run\<close>

lemma col_loop_visited:
  "visited (col_loop P T depth_msg cam_model v u s) = visited s @ map (Pair v) [u..<width depth_msg]"
proof (induction P T depth_msg cam_model v u s rule: col_loop.induct)
  case (1 P T depth_msg cam_model v u s)
  show ?case
  proof (cases "u < width depth_msg")
    case True
    then show ?thesis
      using 1 by (subst col_loop.simps) (simp add: upt_conv_Cons)
  next
    case False
    then show ?thesis
      by (subst col_loop.simps) simp
  qed
qed

lemma window_pixels_empty: "n \<le> 0 \<Longrightarrow> window_pixels v n w = []"
  by (simp add: window_pixels_def)

lemma window_pixels_rec:
  "v < stop \<Longrightarrow>
     window_pixels v (stop - v) w = map (Pair v) [0..<w] @ window_pixels (v + 1) (stop - (v + 1)) w"
  by (simp add: window_pixels_def upto_rec1 [of v "stop - 1"])

lemma row_loop_visited:
  "visited (row_loop P T depth_msg cam_model stop v s) =
     visited s @ window_pixels v (stop - v) (width depth_msg)"
proof (induction P T depth_msg cam_model stop v s rule: row_loop.induct)
  case (1 P T depth_msg cam_model stop v s)
  show ?case
  proof (cases "v < stop")
    case True
    then show ?thesis
      using 1 by (subst row_loop.simps) (simp add: col_loop_visited window_pixels_rec)
  next
    case False
    then show ?thesis
      by (subst row_loop.simps) (simp add: window_pixels_empty)
  qed
qed

subsection \<open>The whole conversion\<close>

lemma convert_visited:
  "visited (convert P T self depth_msg cam_model scan scan_height) =
     window_pixels (start_row P cam_model scan_height) (scan_height_member self) (width depth_msg)"
  by (simp add: convert_def Let_def row_loop_visited)

lemma convert_shell: "same_shell scan (scan_msg (convert P T self depth_msg cam_model scan scan_height))"
proof -
  let ?s0 = "note_fault
      (if row_offset cam_model scan_height = None then Some OffsetNotRepresentable else None)
      \<lparr>scan_msg = scan, outside = ranges_outside P, visited = [], fault = None\<rparr>"
  have "scan_msg ?s0 = scan"
    by (simp only: note_fault_simps run.simps)
  then have "same_shell scan (scan_msg (row_loop P T depth_msg cam_model stop v ?s0))" for stop v
    using row_loop_shell [of ?s0 P T depth_msg cam_model stop v] by (simp only:)
  then show ?thesis
    unfolding convert_def Let_def .
qed

lemma start_row_Some [simp]:
  "row_offset cam_model scan_height = Some offset \<Longrightarrow> start_row P cam_model scan_height = offset"
  by (simp add: start_row_def)

lemma convert_invariant:
  assumes step: "\<And>v u s. start_row P cam_model scan_height \<le> v \<Longrightarrow>
                   v < start_row P cam_model scan_height + scan_height_member self \<Longrightarrow>
                   u < width depth_msg \<Longrightarrow> same_shell scan (scan_msg s) \<Longrightarrow> I s \<Longrightarrow>
                   I (pixel P T depth_msg cam_model v u s)"
    and init: "\<And>f. f = None \<or> f = Some OffsetNotRepresentable \<Longrightarrow>
                 I \<lparr>scan_msg = scan, outside = ranges_outside P, visited = [], fault = f\<rparr>"
  shows "I (convert P T self depth_msg cam_model scan scan_height)"
proof -
  let ?s0 = "note_fault
      (if row_offset cam_model scan_height = None then Some OffsetNotRepresentable else None)
      \<lparr>scan_msg = scan, outside = ranges_outside P, visited = [], fault = None\<rparr>"
  let ?J = "\<lambda>s. same_shell scan (scan_msg s) \<and> I s"
  have s0: "?s0 = \<lparr>scan_msg = scan, outside = ranges_outside P, visited = [],
      fault = (if row_offset cam_model scan_height = None then Some OffsetNotRepresentable else None)\<rparr>"
    by (simp add: note_fault_def)
  have "?J (row_loop P T depth_msg cam_model
      (start_row P cam_model scan_height + scan_height_member self)
      (start_row P cam_model scan_height) ?s0)"
  proof (rule row_loop_invariant [where I = ?J])
    show "?J ?s0"
      unfolding s0 using init by simp
  next
    fix v :: int and u :: nat and s :: run
    assume "start_row P cam_model scan_height \<le> v"
      and "v < start_row P cam_model scan_height + scan_height_member self"
      and "u < width depth_msg" and "?J s"
    then show "?J (pixel P T depth_msg cam_model v u s)"
      using step [of v u s] same_shell_trans [OF _ pixel_shell] by blast
  qed
  then show ?thesis
    by (simp add: convert_def Let_def)
qed

subsection \<open>The window and the offset\<close>

lemma window_pixels_rows:
  assumes "0 < w"
  shows "fst ` set (window_pixels offset n w) = {offset..offset + n - 1}"
  using assms by (auto simp add: window_pixels_def image_iff intro: bexI [of _ 0])

lemma window_pixels_product: "window_pixels offset n w = List.product [offset..offset + n - 1] [0..<w]"
  by (simp add: window_pixels_def product_concat_map)



lemma window_pixels_member:
  "(v, u) \<in> set (window_pixels offset n w) \<longleftrightarrow> offset \<le> v \<and> v < offset + n \<and> u < w"
  by (auto simp add: window_pixels_product)


lemma c_trunc_toward_zero:
  "\<bar>real_of_int (c_trunc x)\<bar> \<le> \<bar>x\<bar> \<and> \<bar>x - real_of_int (c_trunc x)\<bar> < 1"
  unfolding c_trunc_def by (auto; linarith)

lemma c_div_nonneg: "0 \<le> a \<Longrightarrow> 0 < b \<Longrightarrow> c_div a b = a div b"
  by (cases "a = 0") (simp_all add: c_div_def)

lemma c_trunc_floor: "c_trunc q = \<lfloor>q\<rfloor> \<longleftrightarrow> 0 \<le> q \<or> real_of_int \<lfloor>q\<rfloor> = q"
proof (cases "0 \<le> q")
  case True
  then show ?thesis by (simp add: c_trunc_def)
next
  case False
  have "\<lceil>q\<rceil> = \<lfloor>q\<rfloor> \<longleftrightarrow> real_of_int \<lfloor>q\<rfloor> = q"
    by (metis ceiling_altdef ceiling_of_int add.commute add_cancel_right_right zero_neq_one)
  with False show ?thesis by (simp add: c_trunc_def)
qed

subsection \<open>Columns, bins and candidates\<close>

lemma float_of_int:
  assumes "\<bar>m\<bar> < 2 ^ 24"
  shows "float_of (Fin (of_int m)) = Fin (of_int m)"
proof -
  have "real_of_int \<bar>m\<bar> < 2 ^ 24"
    using assms by (metis of_int_less_iff of_int_numeral of_int_power)
  then have "\<bar>real_of_int m\<bar> < 2 powi 128" by (simp add: power_int_def)
  then show ?thesis
    unfolding float_of_def fp_round.simps
    by (intro round_to_exact [where m = m and e = 0]) (use assms in simp_all)
qed

lemma column_offset_principal:
  assumes "cx cam_model = Fin (real u)" and "u < 2 ^ 24"
  shows "column_offset cam_model u = Fin 0"
proof -
  have "float_of (Fin (real u)) = Fin (real u)"
    using float_of_int [of "int u"] assms(2) by simp
  then show ?thesis
    using assms(1) by (simp add: column_offset_def center_x_def)
qed

lemma fp_hypot_zero: "fp_hypot (Fin 0) z = fp_abs z"
  by (cases z) simp_all

lemma candidate_principal:
  assumes "valid T depth" and "column_offset cam_model u = Fin 0" and "to_fp T depth = Fin raw"
    and "constant_x T cam_model = Fin k"
  shows "candidate T cam_model u depth = double_of (fp_abs (toMeters T depth))"
  using assms by (simp add: candidate_def lib_hypot_def fp_hypot_zero)

lemma convert_single_pixel:
  assumes off: "row_offset cam_model scan_height = Some offset"
    and member: "scan_height_member self = 1"
    and cols: "width depth_msg = 1"
  shows "convert P T self depth_msg cam_model scan scan_height =
           pixel P T depth_msg cam_model offset 0
             \<lparr>scan_msg = scan, outside = ranges_outside P, visited = [], fault = None\<rparr>"
proof -
  have "row_loop P T depth_msg cam_model (offset + 1) offset s =
          pixel P T depth_msg cam_model offset 0 s" for s
    using cols
    by (subst row_loop.simps, subst row_loop.simps, subst col_loop.simps, subst col_loop.simps) simp
  then show ?thesis
    using off member by (simp add: convert_def Let_def note_fault_def)
qed

lemma bearing_principal:
  assumes "column_offset cam_model u = Fin 0" and "constant_x T cam_model = Fin k"
    and "unit_scaling T = Fin c" and "0 < c"
  shows "bearing T cam_model u = Fin 0"
  using assms by (simp add: bearing_def lib_atan2_def)

lemma uint16_unit_scaling: "\<exists>c. unit_scaling uint16_traits = Fin c \<and> 1 / 4000 \<le> c \<and> c \<le> 1 / 250"
proof -
  obtain a where a: "double_of (Fin 0.001) = Fin a" "0.001 / 2 \<le> a" "a \<le> 2 * 0.001"
    using double_of_normal [of "0.001"] by auto
  obtain c where c: "double_of (Fin a) = Fin c" "a / 2 \<le> c" "c \<le> 2 * a"
    using double_of_normal [of a] a by auto
  show ?thesis
    using a c by (auto simp add: unit_scaling_def)
qed

lemma uint16_constant_x:
  assumes "fx cam_model = Fin 1"
  shows "\<exists>k. constant_x uint16_traits cam_model = Fin k"
proof -
  obtain c where c: "unit_scaling uint16_traits = Fin c" "1 / 4000 \<le> c" "c \<le> 1 / 250"
    using uint16_unit_scaling by blast
  obtain d where d: "double_of (Fin c) = Fin d" "c / 2 \<le> d" "d \<le> 2 * c"
    using double_of_normal [of c] c by auto
  obtain k where "float_of (Fin d) = Fin k"
    using float_of_normal [of d] c d by auto
  then show ?thesis
    using assms c d by (simp add: constant_x_def)
qed

lemma uint16_bearing_principal:
  assumes "fx cam_model = Fin 1" and "column_offset cam_model u = Fin 0"
  shows "bearing uint16_traits cam_model u = Fin 0"
proof -
  obtain c where c: "unit_scaling uint16_traits = Fin c" "1 / 4000 \<le> c"
    using uint16_unit_scaling by blast
  obtain k where k: "constant_x uint16_traits cam_model = Fin k"
    using uint16_constant_x [OF assms(1)] by blast
  show ?thesis
    using assms(2) k c by (intro bearing_principal [where c = c and k = k]) simp_all
qed

subsection \<open>The reduction of a bin\<close>

lemma in_range_finite: "in_range r lo hi \<Longrightarrow> \<exists>x. r = Fin x"
  by (cases r; cases lo; cases hi) (simp_all add: in_range_def)

lemma use_point_in_range: "use_point r old lo hi \<Longrightarrow> in_range r lo hi"
  by (simp add: use_point_def)

lemma reduced_candidate:
  assumes "in_range r lo hi"
  shows "in_range (reduced r old lo hi) lo hi \<and> closer_eq (reduced r old lo hi) r"
proof -
  from assms obtain x where x: "r = Fin x" using in_range_finite by blast
  show ?thesis
  proof (cases "use_point r old lo hi")
    case True
    with assms x show ?thesis by (simp add: reduced_def)
  next
    case False
    with assms have old: "in_range old lo hi" and "\<not> fp_lt r old"
      by (simp_all add: use_point_def split: if_splits)
    from old obtain y where "old = Fin y" using in_range_finite by blast
    with False old \<open>\<not> fp_lt r old\<close> x show ?thesis by (simp add: reduced_def)
  qed
qed

lemma reduced_stored:
  assumes "in_range old lo hi" and "closer_eq old other"
  shows "in_range (reduced r old lo hi) lo hi \<and> closer_eq (reduced r old lo hi) other"
proof (cases "use_point r old lo hi")
  case True
  then have r: "in_range r lo hi" and lt: "fp_lt r old"
    using assms(1) by (simp_all add: use_point_def)
  from r obtain x where x: "r = Fin x" using in_range_finite by blast
  from assms(1) obtain y where y: "old = Fin y" using in_range_finite by blast
  from assms(2) y have "closer_eq (Fin x) other \<or> \<not> x < y"
    by (cases other) auto
  with lt x y have "closer_eq r other" by simp
  with True r show ?thesis by (simp add: reduced_def)
next
  case False
  with assms show ?thesis by (simp add: reduced_def)
qed

lemma reduced_twice:
  assumes r1: "in_range r1 lo hi" and r2: "in_range r2 lo hi" and lt: "fp_lt r1 r2"
  shows "reduced r2 (reduced r1 old lo hi) lo hi =
           (if in_range old lo hi \<and> \<not> fp_lt r1 old then old else r1)"
    and "reduced r1 (reduced r2 old lo hi) lo hi =
           (if in_range old lo hi \<and> \<not> fp_lt r1 old then old else r1)"
proof -
  from r1 obtain x where x: "r1 = Fin x" using in_range_finite by blast
  from r2 obtain y where y: "r2 = Fin y" using in_range_finite by blast
  from lt x y have xy: "x < y" by simp
  show "reduced r2 (reduced r1 old lo hi) lo hi =
           (if in_range old lo hi \<and> \<not> fp_lt r1 old then old else r1)"
  proof (cases "in_range old lo hi")
    case True
    then obtain z where "old = Fin z" using in_range_finite by blast
    with True r1 r2 x y xy show ?thesis
      by (auto simp add: reduced_def use_point_def)
  next
    case False
    with r1 r2 x y xy show ?thesis
      by (auto simp add: reduced_def use_point_def)
  qed
  show "reduced r1 (reduced r2 old lo hi) lo hi =
           (if in_range old lo hi \<and> \<not> fp_lt r1 old then old else r1)"
  proof (cases "in_range old lo hi")
    case True
    then obtain z where "old = Fin z" using in_range_finite by blast
    with True r1 r2 x y xy show ?thesis
      by (auto simp add: reduced_def use_point_def)
  next
    case False
    with r1 r2 x y xy show ?thesis
      by (auto simp add: reduced_def use_point_def)
  qed
qed

lemma pixel_bin_reduced:
  assumes "depth_at T depth_msg v u = Some depth"
    and "bin_index T cam_model (scan_msg s) u = Some j"
    and "0 \<le> j" and "j < int (length (ranges (scan_msg s)))"
  shows "ranges (scan_msg (pixel P T depth_msg cam_model v u s)) ! nat j =
           reduced (float_of (candidate T cam_model u depth)) (ranges (scan_msg s) ! nat j)
             (range_min (scan_msg s)) (range_max (scan_msg s))"
proof -
  have "index_at P T cam_model (scan_msg s) u = j"
    using assms(2) by (simp add: index_at_def)
  then show ?thesis
    using assms by (simp add: pixel_ranges)
qed

subsection \<open>Candidates that are not in range\<close>

lemma pixel_not_in_range:
  assumes "\<not> in_range (float_of (candidate T cam_model u (sample_at P T depth_msg v u)))
             (range_min (scan_msg s)) (range_max (scan_msg s))"
  shows "scan_msg (pixel P T depth_msg cam_model v u s) = scan_msg s"
    and "outside (pixel P T depth_msg cam_model v u s) = outside s"
  using assms by (simp_all add: pixel_def Let_def use_point_def)

lemma pixel_bin_kept:
  assumes shell: "same_shell scan (scan_msg s)"
    and j: "0 \<le> j"
    and out: "index_at P T cam_model scan u = j \<Longrightarrow>
                \<not> in_range (float_of (candidate T cam_model u (sample_at P T depth_msg v u)))
                    (range_min scan) (range_max scan)"
  shows "ranges (scan_msg (pixel P T depth_msg cam_model v u s)) ! nat j = ranges (scan_msg s) ! nat j"
proof (cases "index_at P T cam_model scan u = j")
  case True
  then have "\<not> in_range (float_of (candidate T cam_model u (sample_at P T depth_msg v u)))
               (range_min (scan_msg s)) (range_max (scan_msg s))"
    using out shell by (simp add: same_shell_def)
  then show ?thesis
    by (simp add: pixel_not_in_range)
next
  case False
  then have "index_at P T cam_model (scan_msg s) u \<noteq> j"
    using index_at_shell [OF shell, of P T cam_model u] by simp
  then show ?thesis
    using j by (auto simp add: pixel_ranges nth_list_update)
qed

lemma convert_bin_kept:
  assumes j: "0 \<le> j"
    and out: "\<And>v u. start_row P cam_model scan_height \<le> v \<Longrightarrow>
                v < start_row P cam_model scan_height + scan_height_member self \<Longrightarrow>
                u < width depth_msg \<Longrightarrow> index_at P T cam_model scan u = j \<Longrightarrow>
                \<not> in_range (float_of (candidate T cam_model u (sample_at P T depth_msg v u)))
                    (range_min scan) (range_max scan)"
  shows "ranges (scan_msg (convert P T self depth_msg cam_model scan scan_height)) ! nat j =
           ranges scan ! nat j"
proof (rule convert_invariant [where I = "\<lambda>s. ranges (scan_msg s) ! nat j = ranges scan ! nat j"])
  fix v :: int and u :: nat and s :: run
  assume "start_row P cam_model scan_height \<le> v"
    and "v < start_row P cam_model scan_height + scan_height_member self"
    and "u < width depth_msg" and "same_shell scan (scan_msg s)"
    and "ranges (scan_msg s) ! nat j = ranges scan ! nat j"
  then show "ranges (scan_msg (pixel P T depth_msg cam_model v u s)) ! nat j = ranges scan ! nat j"
    using pixel_bin_kept [of scan s j P T cam_model u depth_msg v] j out [of v u] by simp
qed simp

lemma float_invalid_not_in_range:
  assumes "\<not> valid float_traits depth"
  shows "\<not> in_range (float_of (candidate float_traits cam_model u depth)) lo hi"
proof -
  have "\<not> in_range depth lo hi"
    using assms by (cases depth; cases lo; cases hi) (simp_all add: in_range_def)
  then show ?thesis
    using assms by (cases depth) (simp_all add: candidate_def)
qed

lemma uint16_invalid_not_in_range:
  assumes "\<not> valid uint16_traits depth" and "\<not> in_range (Fin 0) lo hi"
  shows "\<not> in_range (float_of (candidate uint16_traits cam_model u depth)) lo hi"
  using assms by (simp add: candidate_def)

lemma depth_at_data: "depth_at T depth_msg v u = Some depth \<Longrightarrow> depth \<in> set (data depth_msg)"
  by (auto simp add: depth_at_def Let_def split: if_splits)

subsection \<open>The closest candidate of a bin\<close>

lemma pixel_bin_after:
  assumes "j < length (ranges (scan_msg s))"
  shows "ranges (scan_msg (pixel P T depth_msg cam_model v u s)) ! j = ranges (scan_msg s) ! j \<or>
         (index_at P T cam_model (scan_msg s) u = int j \<and>
            ranges (scan_msg (pixel P T depth_msg cam_model v u s)) ! j =
              reduced (float_of (candidate T cam_model u (sample_at P T depth_msg v u)))
                (ranges (scan_msg s) ! j) (range_min (scan_msg s)) (range_max (scan_msg s)))"
proof (cases "index_at P T cam_model (scan_msg s) u = int j")
  case True
  then show ?thesis
    using assms by (simp add: pixel_ranges)
next
  case False
  then have "0 \<le> index_at P T cam_model (scan_msg s) u \<Longrightarrow>
      nat (index_at P T cam_model (scan_msg s) u) \<noteq> j"
    by auto
  then show ?thesis
    by (simp add: pixel_ranges)
qed

lemma convert_provenance:
  assumes j: "j < length (ranges scan)"
  shows "ranges (scan_msg (convert P T self depth_msg cam_model scan scan_height)) ! j = ranges scan ! j \<or>
         (\<exists>v u. (v, u) \<in> set (visited (convert P T self depth_msg cam_model scan scan_height)) \<and>
            index_at P T cam_model scan u = int j \<and>
            ranges (scan_msg (convert P T self depth_msg cam_model scan scan_height)) ! j =
              float_of (candidate T cam_model u (sample_at P T depth_msg v u)) \<and>
            in_range (float_of (candidate T cam_model u (sample_at P T depth_msg v u)))
              (range_min scan) (range_max scan))"
    (is "?I (convert P T self depth_msg cam_model scan scan_height)")
proof (rule convert_invariant [where I = ?I])
  fix v :: int and u :: nat and s :: run
  assume shell: "same_shell scan (scan_msg s)" and old: "?I s"
  let ?p = "pixel P T depth_msg cam_model v u s"
  let ?r = "float_of (candidate T cam_model u (sample_at P T depth_msg v u))"
  have lim: "range_min (scan_msg s) = range_min scan" "range_max (scan_msg s) = range_max scan"
    "length (ranges (scan_msg s)) = length (ranges scan)"
    using shell by (simp_all add: same_shell_def)
  have idx: "index_at P T cam_model (scan_msg s) u = index_at P T cam_model scan u"
    using shell by (simp add: index_at_shell)
  have sub: "set (visited s) \<subseteq> set (visited ?p)"
    by auto
  have kept: "?I ?p" if "ranges (scan_msg ?p) ! j = ranges (scan_msg s) ! j"
    using old that sub by auto
  from pixel_bin_after [of j s P T depth_msg cam_model v u] j lim
  consider "ranges (scan_msg ?p) ! j = ranges (scan_msg s) ! j"
    | "index_at P T cam_model scan u = int j"
        "ranges (scan_msg ?p) ! j = reduced ?r (ranges (scan_msg s) ! j) (range_min scan) (range_max scan)"
    by (auto simp add: idx)
  then show "?I ?p"
  proof cases
    case 1
    then show ?thesis by (rule kept)
  next
    case 2
    show ?thesis
    proof (cases "use_point ?r (ranges (scan_msg s) ! j) (range_min scan) (range_max scan)")
      case True
      then have "in_range ?r (range_min scan) (range_max scan)"
        by (rule use_point_in_range)
      moreover have "(v, u) \<in> set (visited ?p)"
        by simp
      moreover have "ranges (scan_msg ?p) ! j = ?r"
        using 2(2) True by (simp add: reduced_def)
      ultimately show ?thesis
        using 2(1) by blast
    next
      case False
      with 2(2) have "ranges (scan_msg ?p) ! j = ranges (scan_msg s) ! j"
        by (simp add: reduced_def)
      then show ?thesis by (rule kept)
    qed
  qed
qed simp

lemma convert_best:
  assumes "(v, u) \<in> set (visited (convert P T self depth_msg cam_model scan scan_height))"
    and "index_at P T cam_model scan u = index"
    and "0 \<le> index" and "index < int (length (ranges scan))"
    and "in_range (float_of (candidate T cam_model u (sample_at P T depth_msg v u)))
           (range_min scan) (range_max scan)"
  shows "in_range (ranges (scan_msg (convert P T self depth_msg cam_model scan scan_height)) ! nat index)
           (range_min scan) (range_max scan) \<and>
         closer_eq (ranges (scan_msg (convert P T self depth_msg cam_model scan scan_height)) ! nat index)
           (float_of (candidate T cam_model u (sample_at P T depth_msg v u)))"
proof -
  let ?r = "\<lambda>v u. float_of (candidate T cam_model u (sample_at P T depth_msg v u))"
  let ?good = "\<lambda>v u index. index_at P T cam_model scan u = index \<and> 0 \<le> index \<and>
      index < int (length (ranges scan)) \<and> in_range (?r v u) (range_min scan) (range_max scan)"
  let ?I = "\<lambda>s. \<forall>v u index. (v, u) \<in> set (visited s) \<and> ?good v u index \<longrightarrow>
      in_range (ranges (scan_msg s) ! nat index) (range_min scan) (range_max scan) \<and>
      closer_eq (ranges (scan_msg s) ! nat index) (?r v u)"
  have "?I (convert P T self depth_msg cam_model scan scan_height)"
  proof (rule convert_invariant [where I = ?I])
    fix v0 :: int and u0 :: nat and s :: run
    assume shell: "same_shell scan (scan_msg s)" and old: "?I s"
    let ?p = "pixel P T depth_msg cam_model v0 u0 s"
    have lim: "range_min (scan_msg s) = range_min scan" "range_max (scan_msg s) = range_max scan"
      "length (ranges (scan_msg s)) = length (ranges scan)"
      using shell by (simp_all add: same_shell_def)
    have idx: "index_at P T cam_model (scan_msg s) u0 = index_at P T cam_model scan u0"
      using shell by (simp add: index_at_shell)
    show "?I ?p"
    proof (intro allI impI)
      fix v u index
      assume h: "(v, u) \<in> set (visited ?p) \<and> ?good v u index"
      then have j: "nat index < length (ranges (scan_msg s))" and nn: "int (nat index) = index"
        by (auto simp add: lim)
      let ?new = "ranges (scan_msg ?p) ! nat index" and ?old = "ranges (scan_msg s) ! nat index"
      show "in_range ?new (range_min scan) (range_max scan) \<and> closer_eq ?new (?r v u)"
      proof (cases "(v, u) \<in> set (visited s)")
        case True
        with old h have before: "in_range ?old (range_min scan) (range_max scan)"
          "closer_eq ?old (?r v u)"
          by blast+
        from pixel_bin_after [OF j, of P T depth_msg cam_model v0 u0]
        consider "?new = ?old"
          | "?new = reduced (?r v0 u0) ?old (range_min scan) (range_max scan)"
          by (auto simp add: lim)
        then show ?thesis
        proof cases
          case 1
          with before show ?thesis by simp
        next
          case 2
          with reduced_stored [OF before] show ?thesis by simp
        qed
      next
        case False
        with h have here: "v = v0" "u = u0"
          by auto
        have "?new = reduced (?r v0 u0) ?old (range_min scan) (range_max scan)"
          using h here j by (simp add: pixel_ranges idx lim)
        with reduced_candidate [of "?r v0 u0" "range_min scan" "range_max scan" ?old] h here
        show ?thesis by simp
      qed
    qed
  qed simp
  with assms show ?thesis by blast
qed

subsection \<open>The single row inside a taller window\<close>

lemma c_trunc_shift:
  assumes "0 \<le> k"
  shows "c_trunc (y - real_of_int k) \<le> c_trunc y \<and> c_trunc y \<le> c_trunc (y - real_of_int k) + k"
proof -
  have f: "\<lfloor>y - real_of_int k\<rfloor> = \<lfloor>y\<rfloor> - k" and c: "\<lceil>y - real_of_int k\<rceil> = \<lceil>y\<rceil> - k"
    by simp_all
  have near: "\<lfloor>y\<rfloor> \<le> \<lceil>y\<rceil>" "\<lceil>y\<rceil> \<le> \<lfloor>y\<rfloor> + 1"
    using ceiling_diff_floor_le_1 [of y] by simp_all
  consider "0 \<le> y - real_of_int k" | "y - real_of_int k < 0" "0 \<le> y" | "y < 0"
    by linarith
  then show ?thesis
  proof cases
    case 1
    with assms have "0 \<le> y" by linarith
    with 1 assms show ?thesis by (simp only: c_trunc_def f if_True) simp
  next
    case 2
    then have "real_of_int k > 0" by linarith
    then have "1 \<le> k" by simp
    with 2 near show ?thesis by (simp add: c_trunc_def c)
  next
    case 3
    with assms have "y - real_of_int k < 0" by linarith
    with 3 assms show ?thesis by (simp add: c_trunc_def c)
  qed
qed

lemma row_offset_centre:
  assumes one: "row_difference cam_model 1 = Fin c"
    and many: "row_difference cam_model n = Fin (c - real_of_int (c_div n 2))"
    and r1: "row_offset cam_model 1 = Some centre"
    and rn: "row_offset cam_model n = Some offset"
    and n: "1 \<le> n"
  shows "offset \<le> centre \<and> centre < offset + n"
proof -
  have k: "0 \<le> c_div n 2" "c_div n 2 < n"
    using n by (simp_all add: c_div_nonneg)
  have "centre = c_trunc c" "offset = c_trunc (c - real_of_int (c_div n 2))"
    using one many r1 rn by (auto simp add: row_offset_def split: if_splits)
  then show ?thesis
    using c_trunc_shift [OF k(1), of c] k(2) by linarith
qed

subsection \<open>A window that leaves the image\<close>



lemma pixel_touches_one_bin:
  assumes "j \<noteq> nat (index_at P T cam_model (scan_msg s) u)"
  shows "ranges (scan_msg (pixel P T depth_msg cam_model v u s)) ! j = ranges (scan_msg s) ! j"
  using assms by (simp add: pixel_ranges)

subsection \<open>The narrowing of the principal point\<close>

text \<open>
  Rounding at a value that is not representable, given its binary exponent. The principal
  point 239.99999999 is stored as the \<open>float\<close> 240, so that a window of one row starts at
  row 240, while the exact difference truncates to 239.
\<close>

lemma round_to_at:
  assumes "2 powi L \<le> \<bar>x\<bar>" and "\<bar>x\<bar> < 2 powi (L + 1)"
  shows "round_to p emin emax x =
           (let e = max (L - int p + 1) emin;
                y = of_int (rne (x / 2 powi e)) * 2 powi e
            in if 2 powi emax \<le> \<bar>y\<bar> then (if 0 < x then PInf else NInf) else Fin y)"
proof -
  have pos: "0 < \<bar>x\<bar>"
    using assms(1) by (smt (verit) zero_less_power_int)
  have "2 powr (real_of_int L) \<le> \<bar>x\<bar>" "\<bar>x\<bar> < 2 powr (real_of_int (L + 1))"
    using assms powr_real_of_int' [of 2 L] powr_real_of_int' [of 2 "L + 1"]
    by (simp_all del: of_int_add)
  then have "\<lfloor>log 2 \<bar>x\<bar>\<rfloor> = L"
    using floor_log_eq_powr_iff [of "\<bar>x\<bar>" 2 L] pos by simp
  then show ?thesis
    using pos by (simp add: round_to_def)
qed

lemma float_of_narrows: "float_of (Fin 239.99999999) = Fin 240"
proof -
  have a: "2 powi 7 \<le> \<bar>239.99999999 :: real\<bar>" "\<bar>239.99999999 :: real\<bar> < 2 powi (7 + 1)"
    by (simp_all add: power_int_def)
  have p: "(2 :: real) powi (- 16) = 1 / 65536"
    by (simp add: power_int_def power_one_over)
  have t: "(239.99999999 :: real) / 2 powi (- 16) = 15728639.99934464"
    unfolding p by simp
  have f: "\<lfloor>15728639.99934464 :: real\<rfloor> = 15728639"
    by (intro floor_unique) simp_all
  have r: "rne (239.99999999 / 2 powi (- 16)) = 15728640"
    unfolding t rne_def Let_def f by simp
  show ?thesis
    unfolding float_of_def fp_round.simps round_to_at [OF a]
    using r p by (simp add: Let_def power_int_def)
qed

lemma narrowing_changes_offset:
  "row_offset (example_camera 0 239.99999999) 1 = Some 240 \<and>
   c_trunc (239.99999999 - real_of_int (c_div 1 2)) = 239"
  using float_of_narrows float_of_quarters [of 960]
  by (simp add: example_camera_def row_offset_def row_difference_def center_y_def c_div_def
      c_trunc_def)

text \<open>
  A tie: 16777217 lies halfway between the \<open>float\<close>s 16777216 and 16777218 and is
  rounded to the one with the even significand.
\<close>

lemma float_of_tie: "float_of (Fin 16777217) = Fin 16777216"
proof -
  have a: "2 powi 24 \<le> \<bar>16777217 :: real\<bar>" "\<bar>16777217 :: real\<bar> < 2 powi (24 + 1)"
    by (simp_all add: power_int_def)
  have f: "\<lfloor>16777217 / 2 :: real\<rfloor> = 8388608"
    by (intro floor_unique) simp_all
  have r: "rne (16777217 / 2) = 8388608"
    unfolding rne_def Let_def f by simp
  show ?thesis
    unfolding float_of_def fp_round.simps round_to_at [OF a]
    using r by (simp add: Let_def power_int_def)
qed

lemma float_of_even: "float_of (Fin 16777218) = Fin 16777218"
proof -
  have "round_to 24 (- 149) 128 (real_of_int 8388609 * 2 powi 1) = Fin (real_of_int 8388609 * 2 powi 1)"
    by (intro round_to_exact [where m = 8388609 and e = 1]) (simp_all add: power_int_def)
  then show ?thesis
    by (simp add: float_of_def)
qed

subsection \<open>Evaluation at concrete inputs\<close>

lemmas example_defs = example_camera_def example_scan_def example_image_def example_converter_def
  example_platform_def

lemma c_trunc_eval: "c_trunc x = (if 0 \<le> x then \<lfloor>x\<rfloor> else - \<lfloor>- x\<rfloor>)"
  by (simp add: c_trunc_def ceiling_def)

lemma float_of_eval:
  "float_of (Fin 1) = Fin 1" "float_of (Fin 2) = Fin 2" "float_of (Fin 3) = Fin 3"
  "float_of (Fin (- 1)) = Fin (- 1)" "float_of (Fin (- 2)) = Fin (- 2)"
  "float_of (Fin (1 / 2)) = Fin (1 / 2)" "float_of (Fin (- (1 / 2))) = Fin (- (1 / 2))"
  "float_of (Fin (3 / 2)) = Fin (3 / 2)" "float_of (Fin (- (3 / 2))) = Fin (- (3 / 2))"
  "float_of (Fin (959 / 4)) = Fin (959 / 4)" "float_of (Fin (955 / 4)) = Fin (955 / 4)"
  using float_of_quarters [of 4] float_of_quarters [of 8] float_of_quarters [of 12]
    float_of_quarters [of "- 4"] float_of_quarters [of "- 8"]
    float_of_quarters [of 2] float_of_quarters [of "- 2"]
    float_of_quarters [of 6] float_of_quarters [of "- 6"]
    float_of_quarters [of 959] float_of_quarters [of 955]
  by simp_all

lemma double_of_eval:
  "double_of (Fin 1) = Fin 1" "double_of (Fin 2) = Fin 2" "double_of (Fin 3) = Fin 3"
  "double_of (Fin (- 1)) = Fin (- 1)" "double_of (Fin (- 2)) = Fin (- 2)"
  "double_of (Fin (1 / 2)) = Fin (1 / 2)" "double_of (Fin (- (1 / 2))) = Fin (- (1 / 2))"
  "double_of (Fin (3 / 2)) = Fin (3 / 2)" "double_of (Fin (- (3 / 2))) = Fin (- (3 / 2))"
  using double_of_quarters [of 4] double_of_quarters [of 8] double_of_quarters [of 12]
    double_of_quarters [of "- 4"] double_of_quarters [of "- 8"]
    double_of_quarters [of 2] double_of_quarters [of "- 2"]
    double_of_quarters [of 6] double_of_quarters [of "- 6"]
  by simp_all

lemmas convert_eval = convert_def start_row_def row_offset_def row_difference_def center_y_def
  center_x_def c_div_def c_trunc_eval row_loop.simps col_loop.simps
  pixel_def sample_at_def depth_at_def row_step_def index_at_def bin_index_def bin_quotient_def
  bearing_def column_offset_def constant_x_def unit_scaling_def lib_atan2_def lib_hypot_def
  candidate_def use_point_def in_range_def note_fault_def Let_def float_of_eval double_of_eval

section \<open>The properties of the specification\<close>

text \<open>
  Claim C1, as the specification states it, fails: \<open>convert\<close> has no test of the bin
  index. In the run below the only pixel has bin index 3 and the scan has one bin; the
  sample is not discarded, the run makes the access \<open>ranges[3]\<close>: it reads the memory
  beside the array, which holds NaN here, and writes the candidate 2 there.
\<close>

theorem ranges_access_is_unchecked_counterexample:
  "depth_at float_traits (example_image float_traits 1 1 [Fin 2]) 0 0 = Some (Fin 2) \<and>
   bin_index float_traits (example_camera 0 0) (example_scan (- 3) 0.5 1) 0 = Some 3 \<and>
   length (ranges (example_scan (- 3) 0.5 1)) = 1 \<and>
   convert (example_platform NaN) float_traits (example_converter 1)
       (example_image float_traits 1 1 [Fin 2]) (example_camera 0 0) (example_scan (- 3) 0.5 1) 1 =
     \<lparr>scan_msg = example_scan (- 3) 0.5 1, outside = (\<lambda>i. NaN)(3 := Fin 2), visited = [(0, 0)],
        fault = Some (RangesOutOfBounds 3)\<rparr>"
  by (simp add: example_defs convert_eval)

text \<open>
  Claim C1, amended. \<open>convert\<close> accesses \<open>ranges[index]\<close> without a test of the index.
  A processed pixel whose bin index falls outside \<open>[0, len(ranges))\<close> is not discarded:
  the access is made outside the array (undefined behaviour): the element beside the
  array is read, offered to \<open>use_point\<close> and overwritten if the policy says so, while the
  array itself is unchanged. A run whose first undefined operation is of this kind has
  made it at an index outside the bounds that is the bin index of a column of the image.
  When every column of the image has a representable bin index inside the bounds, no
  access of the run is the first undefined operation, and the number of bins is
  unchanged.
\<close>

theorem ranges_access_is_unchecked:
  "(fault s = None \<and> depth_at T depth_msg v u = Some depth \<and>
    bin_index T cam_model (scan_msg s) u = Some index \<and>
    \<not> (0 \<le> index \<and> index < int (length (ranges (scan_msg s)))) \<longrightarrow>
      fault (pixel P T depth_msg cam_model v u s) = Some (RangesOutOfBounds index) \<and>
      scan_msg (pixel P T depth_msg cam_model v u s) = scan_msg s \<and>
      outside (pixel P T depth_msg cam_model v u s) =
        (outside s)(index := reduced (float_of (candidate T cam_model u depth)) (outside s index)
           (range_min (scan_msg s)) (range_max (scan_msg s)))) \<and>
   (fault (convert P T self depth_msg cam_model scan scan_height) = Some (RangesOutOfBounds bad) \<longrightarrow>
      \<not> (0 \<le> bad \<and> bad < int (length (ranges scan))) \<and>
      (\<exists>u<width depth_msg. bin_index T cam_model scan u = Some bad)) \<and>
   ((\<forall>u<width depth_msg. bin_ok T cam_model scan u) \<longrightarrow>
      (\<forall>i. fault (convert P T self depth_msg cam_model scan scan_height) \<noteq> Some (RangesOutOfBounds i)) \<and>
      length (ranges (scan_msg (convert P T self depth_msg cam_model scan scan_height))) =
        length (ranges scan))"
proof (intro conjI impI)
  assume a: "fault s = None \<and> depth_at T depth_msg v u = Some depth \<and>
    bin_index T cam_model (scan_msg s) u = Some index \<and>
    \<not> (0 \<le> index \<and> index < int (length (ranges (scan_msg s))))"
  then show "fault (pixel P T depth_msg cam_model v u s) = Some (RangesOutOfBounds index)"
    by (simp add: pixel_fault)
  have idx: "index_at P T cam_model (scan_msg s) u = index"
    using a by (simp add: index_at_def)
  show "scan_msg (pixel P T depth_msg cam_model v u s) = scan_msg s"
    using a by (auto simp add: pixel_def Let_def idx)
  show "outside (pixel P T depth_msg cam_model v u s) =
        (outside s)(index := reduced (float_of (candidate T cam_model u depth)) (outside s index)
           (range_min (scan_msg s)) (range_max (scan_msg s)))"
    using a by (auto simp add: pixel_def Let_def idx reduced_def)
next
  let ?I = "\<lambda>s. \<forall>i. fault s = Some (RangesOutOfBounds i) \<longrightarrow>
              \<not> (0 \<le> i \<and> i < int (length (ranges scan))) \<and>
              (\<exists>u<width depth_msg. bin_index T cam_model scan u = Some i)"
  have inv: "?I (convert P T self depth_msg cam_model scan scan_height)"
  proof (rule convert_invariant [where I = ?I])
    fix f :: "fault option"
    assume "f = None \<or> f = Some OffsetNotRepresentable"
    then show "?I \<lparr>scan_msg = scan, outside = ranges_outside P, visited = [], fault = f\<rparr>"
      by auto
  next
    fix v :: int and u :: nat and s :: run
    assume u: "u < width depth_msg" and shell: "same_shell scan (scan_msg s)" and s: "?I s"
    have idx: "bin_index T cam_model (scan_msg s) u = bin_index T cam_model scan u"
      using shell by (simp add: bin_index_shell)
    have len: "length (ranges (scan_msg s)) = length (ranges scan)"
      using shell by (simp add: same_shell_def)
    show "?I (pixel P T depth_msg cam_model v u s)"
      using u s by (auto simp add: pixel_fault idx len split: option.splits if_splits)
  qed
  {
    assume "fault (convert P T self depth_msg cam_model scan scan_height) = Some (RangesOutOfBounds bad)"
    with inv show "\<not> (0 \<le> bad \<and> bad < int (length (ranges scan)))"
      and "\<exists>u<width depth_msg. bin_index T cam_model scan u = Some bad"
      by blast+
  }
  assume bins: "\<forall>u<width depth_msg. bin_ok T cam_model scan u"
  show "\<forall>i. fault (convert P T self depth_msg cam_model scan scan_height) \<noteq> Some (RangesOutOfBounds i)"
  proof (intro allI notI)
    fix i
    assume "fault (convert P T self depth_msg cam_model scan scan_height) = Some (RangesOutOfBounds i)"
    with inv obtain u where "u < width depth_msg" "bin_index T cam_model scan u = Some i"
      "\<not> (0 \<le> i \<and> i < int (length (ranges scan)))"
      by blast
    with bins show False by (auto simp add: bin_ok_def)
  qed
  show "length (ranges (scan_msg (convert P T self depth_msg cam_model scan scan_height))) =
        length (ranges scan)"
    using convert_shell [of scan P T self depth_msg cam_model scan_height] by (simp add: same_shell_def)
qed

theorem ranges_access_is_unchecked_witness:
  "fault (pixel (example_platform NaN) float_traits (example_image float_traits 1 1 [Fin 2])
      (example_camera 0 0) 0 0
      \<lparr>scan_msg = example_scan (- 3) 0.5 1, outside = (\<lambda>i. NaN), visited = [], fault = None\<rparr>) =
     Some (RangesOutOfBounds 3) \<and>
   scan_msg (pixel (example_platform NaN) float_traits (example_image float_traits 1 1 [Fin 2])
      (example_camera 0 0) 0 0
      \<lparr>scan_msg = example_scan (- 3) 0.5 1, outside = (\<lambda>i. NaN), visited = [], fault = None\<rparr>) =
     example_scan (- 3) 0.5 1 \<and>
   \<not> (0 \<le> (3::int) \<and> 3 < int (length (ranges (example_scan (- 3) 0.5 1)))) \<and>
   (\<exists>u<width (example_image float_traits 1 1 [Fin 2]).
      bin_index float_traits (example_camera 0 0) (example_scan (- 3) 0.5 1) u = Some 3) \<and>
   (\<forall>i. fault (convert (example_platform NaN) float_traits (example_converter 1)
          (example_image float_traits 1 1 [Fin 2])
          (example_camera 0 0) (example_scan 0 0.5 1) 1) \<noteq> Some (RangesOutOfBounds i)) \<and>
   length (ranges (scan_msg (convert (example_platform NaN) float_traits (example_converter 1)
       (example_image float_traits 1 1 [Fin 2]) (example_camera 0 0) (example_scan 0 0.5 1) 1))) =
     length (ranges (example_scan 0 0.5 1))"
proof -
  let ?image = "example_image float_traits 1 1 [Fin 2]"
  let ?P = "example_platform (NaN :: fp)"
  let ?s = "\<lparr>scan_msg = example_scan (- 3) 0.5 1, outside = (\<lambda>i. NaN), visited = [], fault = None\<rparr>"
  have s: "fault ?s = None" "scan_msg ?s = example_scan (- 3) 0.5 1"
    by simp_all
  have depth: "depth_at float_traits ?image 0 0 = Some (Fin 2)"
    by (simp add: example_defs depth_at_def row_step_def)
  have index: "bin_index float_traits (example_camera 0 0) (example_scan (- 3) 0.5 1) 0 = Some 3"
    by (simp add: example_defs convert_eval)
  have outside: "\<not> (0 \<le> (3::int) \<and> 3 < int (length (ranges (example_scan (- 3) 0.5 1))))"
    by (simp add: example_defs)
  have run: "fault (convert ?P float_traits (example_converter 1) ?image (example_camera 0 0)
      (example_scan (- 3) 0.5 1) 1) = Some (RangesOutOfBounds 3)"
    by (simp add: example_defs convert_eval)
  have bins: "\<forall>u<width ?image. bin_ok float_traits (example_camera 0 0) (example_scan 0 0.5 1) u"
    by (simp add: example_defs bin_ok_def convert_eval)
  note a = ranges_access_is_unchecked [where s = ?s and T = float_traits and depth_msg = ?image
      and v = 0 and u = 0 and depth = "Fin 2" and cam_model = "example_camera 0 0" and index = 3
      and self = "example_converter 1" and scan = "example_scan (- 3) 0.5 1" and scan_height = 1
      and bad = 3 and P = ?P, unfolded s]
  note b = ranges_access_is_unchecked [where s = ?s and T = float_traits and depth_msg = ?image
      and v = 0 and u = 0 and depth = "Fin 2" and cam_model = "example_camera 0 0" and index = 3
      and self = "example_converter 1" and scan = "example_scan 0 0.5 1" and scan_height = 1
      and bad = 3 and P = ?P]
  from a b depth index outside run bins show ?thesis
    by blast
qed

text \<open>
  Claim C2. The reduction policy keeps the shortest candidate in range: a candidate that
  is not in range never replaces a stored value that is in range; a candidate in range
  always replaces a stored value that is not (the sentinel, or a value out of range);
  between two values in range the candidate wins exactly when it is shorter. For two
  pixels of the same bin with candidates \<open>shorter < longer\<close>, both in range, the bin
  holds the same value after both pixels whichever is processed first: \<open>shorter\<close>,
  unless the bin held before them a value in range that \<open>shorter\<close> is not below, which
  it keeps. In particular a bin that held the sentinel holds \<open>shorter\<close>.
\<close>

theorem use_point_keeps_shortest:
  "(\<not> in_range new_value lo hi \<and> in_range old_value lo hi \<longrightarrow>
      \<not> use_point new_value old_value lo hi) \<and>
   (in_range new_value lo hi \<and> \<not> in_range old_value lo hi \<longrightarrow>
      use_point new_value old_value lo hi) \<and>
   (in_range new_value lo hi \<and> in_range old_value lo hi \<longrightarrow>
      use_point new_value old_value lo hi = fp_lt new_value old_value) \<and>
   (depth_at T depth_msg v u = Some depth \<and> depth_at T depth_msg v' u' = Some depth' \<and>
    bin_index T cam_model (scan_msg s) u = Some j \<and> bin_index T cam_model (scan_msg s) u' = Some j \<and>
    0 \<le> j \<and> j < int (length (ranges (scan_msg s))) \<and>
    float_of (candidate T cam_model u depth) = shorter \<and>
    float_of (candidate T cam_model u' depth') = longer \<and>
    in_range shorter (range_min (scan_msg s)) (range_max (scan_msg s)) \<and>
    in_range longer (range_min (scan_msg s)) (range_max (scan_msg s)) \<and>
    fp_lt shorter longer \<and> ranges (scan_msg s) ! nat j = stored \<longrightarrow>
      ranges (scan_msg (pixel P T depth_msg cam_model v' u' (pixel P T depth_msg cam_model v u s))) ! nat j =
        (if in_range stored (range_min (scan_msg s)) (range_max (scan_msg s)) \<and> \<not> fp_lt shorter stored
         then stored else shorter) \<and>
      ranges (scan_msg (pixel P T depth_msg cam_model v u (pixel P T depth_msg cam_model v' u' s))) ! nat j =
        (if in_range stored (range_min (scan_msg s)) (range_max (scan_msg s)) \<and> \<not> fp_lt shorter stored
         then stored else shorter))"
proof (intro conjI impI)
  assume "\<not> in_range new_value lo hi \<and> in_range old_value lo hi"
  then show "\<not> use_point new_value old_value lo hi" by (simp add: use_point_def)
next
  assume "in_range new_value lo hi \<and> \<not> in_range old_value lo hi"
  then show "use_point new_value old_value lo hi" by (simp add: use_point_def)
next
  assume "in_range new_value lo hi \<and> in_range old_value lo hi"
  then show "use_point new_value old_value lo hi = fp_lt new_value old_value"
    by (simp add: use_point_def)
next
  assume h: "depth_at T depth_msg v u = Some depth \<and> depth_at T depth_msg v' u' = Some depth' \<and>
    bin_index T cam_model (scan_msg s) u = Some j \<and> bin_index T cam_model (scan_msg s) u' = Some j \<and>
    0 \<le> j \<and> j < int (length (ranges (scan_msg s))) \<and>
    float_of (candidate T cam_model u depth) = shorter \<and>
    float_of (candidate T cam_model u' depth') = longer \<and>
    in_range shorter (range_min (scan_msg s)) (range_max (scan_msg s)) \<and>
    in_range longer (range_min (scan_msg s)) (range_max (scan_msg s)) \<and>
    fp_lt shorter longer \<and> ranges (scan_msg s) ! nat j = stored"
  let ?lo = "range_min (scan_msg s)" and ?hi = "range_max (scan_msg s)"
  let ?p = "pixel P T depth_msg cam_model v u s" and ?p' = "pixel P T depth_msg cam_model v' u' s"
  have sh: "same_shell (scan_msg s) (scan_msg ?p)" and sh': "same_shell (scan_msg s) (scan_msg ?p')"
    by (rule pixel_shell)+
  have first: "ranges (scan_msg ?p) ! nat j = reduced shorter stored ?lo ?hi"
    using h pixel_bin_reduced [of T depth_msg v u depth cam_model s j P] by simp
  have first': "ranges (scan_msg ?p') ! nat j = reduced longer stored ?lo ?hi"
    using h pixel_bin_reduced [of T depth_msg v' u' depth' cam_model s j P] by simp
  have idx: "bin_index T cam_model (scan_msg ?p) u' = Some j"
    using h bin_index_shell [OF sh, of T cam_model u'] by simp
  have idx': "bin_index T cam_model (scan_msg ?p') u = Some j"
    using h bin_index_shell [OF sh', of T cam_model u] by simp
  have lim: "range_min (scan_msg ?p) = ?lo" "range_max (scan_msg ?p) = ?hi"
    "length (ranges (scan_msg ?p)) = length (ranges (scan_msg s))"
    using sh by (simp_all add: same_shell_def)
  have lim': "range_min (scan_msg ?p') = ?lo" "range_max (scan_msg ?p') = ?hi"
    "length (ranges (scan_msg ?p')) = length (ranges (scan_msg s))"
    using sh' by (simp_all add: same_shell_def)
  have "ranges (scan_msg (pixel P T depth_msg cam_model v' u' ?p)) ! nat j =
          reduced longer (reduced shorter stored ?lo ?hi) ?lo ?hi"
    using h pixel_bin_reduced [of T depth_msg v' u' depth' cam_model ?p j P]
    by (simp add: first idx lim)
  then show "ranges (scan_msg (pixel P T depth_msg cam_model v' u' ?p)) ! nat j =
        (if in_range stored ?lo ?hi \<and> \<not> fp_lt shorter stored then stored else shorter)"
    using h by (simp only: reduced_twice(1))
  have "ranges (scan_msg (pixel P T depth_msg cam_model v u ?p')) ! nat j =
          reduced shorter (reduced longer stored ?lo ?hi) ?lo ?hi"
    using h pixel_bin_reduced [of T depth_msg v u depth cam_model ?p' j P]
    by (simp add: first' idx' lim')
  then show "ranges (scan_msg (pixel P T depth_msg cam_model v u ?p')) ! nat j =
        (if in_range stored ?lo ?hi \<and> \<not> fp_lt shorter stored then stored else shorter)"
    using h by (simp only: reduced_twice(2))
qed

theorem use_point_keeps_shortest_witness:
  "\<not> use_point PInf (Fin 2) (Fin 0.5) (Fin 10) \<and>
   use_point (Fin 2) PInf (Fin 0.5) (Fin 10) \<and>
   use_point (Fin 2) (Fin 3) (Fin 0.5) (Fin 10) = fp_lt (Fin 2) (Fin 3) \<and>
   ranges (scan_msg
     (pixel (example_platform NaN) float_traits (example_image float_traits 2 1 [Fin 3, Fin 2]) (example_camera 0 1) 0 0
       (pixel (example_platform NaN) float_traits (example_image float_traits 2 1 [Fin 3, Fin 2]) (example_camera 0 1) 1 0
          \<lparr>scan_msg = example_scan 0 0.5 1, outside = (\<lambda>i. NaN), visited = [], fault = None\<rparr>))) ! nat 0 = Fin 2 \<and>
   ranges (scan_msg
     (pixel (example_platform NaN) float_traits (example_image float_traits 2 1 [Fin 3, Fin 2]) (example_camera 0 1) 1 0
       (pixel (example_platform NaN) float_traits (example_image float_traits 2 1 [Fin 3, Fin 2]) (example_camera 0 1) 0 0
          \<lparr>scan_msg = example_scan 0 0.5 1, outside = (\<lambda>i. NaN), visited = [], fault = None\<rparr>))) ! nat 0 = Fin 2"
proof -
  let ?image = "example_image float_traits 2 1 [Fin 3, Fin 2]"
  let ?s = "\<lparr>scan_msg = example_scan 0 0.5 1, outside = (\<lambda>i. NaN), visited = [], fault = None\<rparr>"
  let ?lo = "range_min (scan_msg ?s)" and ?hi = "range_max (scan_msg ?s)"
  have never: "\<not> use_point PInf (Fin 2) (Fin 0.5) (Fin 10)"
    by (rule use_point_keeps_shortest [THEN conjunct1, THEN mp]) (simp add: in_range_def)
  have seeds: "use_point (Fin 2) PInf (Fin 0.5) (Fin 10)"
    by (rule use_point_keeps_shortest [THEN conjunct2, THEN conjunct1, THEN mp])
      (simp add: in_range_def)
  have shorter: "use_point (Fin 2) (Fin 3) (Fin 0.5) (Fin 10) = fp_lt (Fin 2) (Fin 3)"
    by (rule use_point_keeps_shortest [THEN conjunct2, THEN conjunct2, THEN conjunct1, THEN mp])
      (simp add: in_range_def)
  have "ranges (scan_msg (pixel (example_platform NaN) float_traits ?image (example_camera 0 1) 0 0
            (pixel (example_platform NaN) float_traits ?image (example_camera 0 1) 1 0 ?s))) ! nat 0 =
          (if in_range PInf ?lo ?hi \<and> \<not> fp_lt (Fin 2) PInf then PInf else Fin 2) \<and>
        ranges (scan_msg (pixel (example_platform NaN) float_traits ?image (example_camera 0 1) 1 0
            (pixel (example_platform NaN) float_traits ?image (example_camera 0 1) 0 0 ?s))) ! nat 0 =
          (if in_range PInf ?lo ?hi \<and> \<not> fp_lt (Fin 2) PInf then PInf else Fin 2)"
    by (rule use_point_keeps_shortest [where depth = "Fin 2" and depth' = "Fin 3" and longer = "Fin 3"
          and P = "example_platform NaN",
          THEN conjunct2, THEN conjunct2, THEN conjunct2, THEN mp])
      (simp add: example_defs convert_eval fp_hypot_zero)
  with never seeds shorter show ?thesis
    by simp
qed

text \<open>
  Claim C3, as the specification states it, fails: a float sample of \<open>-2\<close> is finite,
  hence valid; at the principal point its candidate is \<open>hypot(0, -2) = 2\<close>, which is
  stored, while \<open>to_meters\<close> of the sample is \<open>-2\<close>. In the scan below both values
  are in range.
\<close>

theorem candidate_at_principal_point_counterexample:
  "valid float_traits (Fin (- 2)) \<and>
   toMeters float_traits (Fin (- 2)) = Fin (- 2) \<and>
   cx (example_camera 0 0) = Fin (real (0::nat)) \<and>
   in_range (Fin (- 2)) (range_min (example_scan 0 (- 5) 1)) (range_max (example_scan 0 (- 5) 1)) \<and>
   in_range (Fin 2) (range_min (example_scan 0 (- 5) 1)) (range_max (example_scan 0 (- 5) 1)) \<and>
   candidate float_traits (example_camera 0 0) 0 (Fin (- 2)) = Fin 2 \<and>
   convert (example_platform NaN) float_traits (example_converter 1)
       (example_image float_traits 1 1 [Fin (- 2)]) (example_camera 0 0) (example_scan 0 (- 5) 1) 1 =
     \<lparr>scan_msg = (example_scan 0 (- 5) 1)\<lparr>ranges := [Fin 2]\<rparr>, outside = (\<lambda>i. NaN),
        visited = [(0, 0)], fault = None\<rparr>"
  by (simp add: example_defs convert_eval)

text \<open>
  Claim C3, amended. For every pixel \<open>(u, v)\<close> whose raw sample is valid, the candidate
  range is \<open>r = hypot(x, z)\<close> with \<open>x = (u - principal_point_x) \<sqdot> depth \<sqdot> constant_x\<close>
  and \<open>z = to_meters(depth)\<close>, where the difference and the two products are computed in
  \<open>float\<close>, from a principal point and a \<open>constant_x\<close> stored in \<open>float\<close>s. Consequently,
  for a valid pixel whose column lies at the principal point (the difference is zero, as
  it is when the principal point is the column itself), with a finite \<open>constant_x\<close>, a
  candidate in range and a bin that holds a value not in range (the sentinel), the pixel
  stores in that bin the magnitude \<open>|to_meters(depth)|\<close>, converted to \<open>float\<close>, and that
  is the result of the conversion of an image of this single pixel; the stored value is
  \<open>to_meters(depth)\<close> itself whenever \<open>to_meters(depth)\<close> is not negative and is a value
  of type \<open>float\<close>.
\<close>

theorem candidate_at_principal_point:
  "(valid T depth \<longrightarrow>
      candidate T cam_model u depth =
        lib_hypot
          (float_of (fp_mul
             (float_of (fp_mul
                (float_of (fp_sub (float_of (Fin (real u))) (float_of (cx cam_model))))
                (to_fp T depth)))
             (float_of (double_of (fp_div (toMeters T (one T)) (fx cam_model))))))
          (toMeters T depth)) \<and>
   (cx cam_model = Fin (real u) \<and> u < 2 ^ 24 \<longrightarrow> column_offset cam_model u = Fin 0) \<and>
   (depth_at T depth_msg v u = Some depth \<and> valid T depth \<and>
    column_offset cam_model u = Fin 0 \<and> to_fp T depth = Fin raw \<and> constant_x T cam_model = Fin k \<and>
    bin_index T cam_model (scan_msg s) u = Some index \<and> 0 \<le> index \<and>
    index < int (length (ranges (scan_msg s))) \<and>
    in_range (float_of (double_of (fp_abs (toMeters T depth))))
      (range_min (scan_msg s)) (range_max (scan_msg s)) \<and>
    \<not> in_range (ranges (scan_msg s) ! nat index) (range_min (scan_msg s)) (range_max (scan_msg s)) \<longrightarrow>
      candidate T cam_model u depth = double_of (fp_abs (toMeters T depth)) \<and>
      ranges (scan_msg (pixel P T depth_msg cam_model v u s)) ! nat index =
        float_of (double_of (fp_abs (toMeters T depth)))) \<and>
   (row_offset cam_model scan_height = Some offset \<and> scan_height_member self = 1 \<and>
    width depth_msg = 1 \<and> depth_at T depth_msg offset 0 = Some depth \<and> valid T depth \<and>
    column_offset cam_model 0 = Fin 0 \<and> to_fp T depth = Fin raw \<and> constant_x T cam_model = Fin k \<and>
    bin_index T cam_model scan 0 = Some index \<and> 0 \<le> index \<and> index < int (length (ranges scan)) \<and>
    in_range (float_of (double_of (fp_abs (toMeters T depth)))) (range_min scan) (range_max scan) \<and>
    \<not> in_range (ranges scan ! nat index) (range_min scan) (range_max scan) \<longrightarrow>
      convert P T self depth_msg cam_model scan scan_height =
        \<lparr>scan_msg = scan\<lparr>ranges :=
           (ranges scan)[nat index := float_of (double_of (fp_abs (toMeters T depth)))]\<rparr>,
         outside = ranges_outside P, visited = [(offset, 0)], fault = None\<rparr>) \<and>
   (toMeters T depth = Fin z \<and> 0 \<le> z \<and> double_of (Fin z) = Fin z \<and> float_of (Fin z) = Fin z \<longrightarrow>
      float_of (double_of (fp_abs (toMeters T depth))) = toMeters T depth)"
proof (intro conjI impI)
  assume "valid T depth"
  then show "candidate T cam_model u depth =
        lib_hypot
          (float_of (fp_mul
             (float_of (fp_mul
                (float_of (fp_sub (float_of (Fin (real u))) (float_of (cx cam_model))))
                (to_fp T depth)))
             (float_of (double_of (fp_div (toMeters T (one T)) (fx cam_model))))))
          (toMeters T depth)"
    by (simp add: candidate_def constant_x_def unit_scaling_def column_offset_def center_x_def)
next
  assume "cx cam_model = Fin (real u) \<and> u < 2 ^ 24"
  then show "column_offset cam_model u = Fin 0"
    by (simp add: column_offset_principal)
next
  assume h: "depth_at T depth_msg v u = Some depth \<and> valid T depth \<and>
    column_offset cam_model u = Fin 0 \<and> to_fp T depth = Fin raw \<and> constant_x T cam_model = Fin k \<and>
    bin_index T cam_model (scan_msg s) u = Some index \<and> 0 \<le> index \<and>
    index < int (length (ranges (scan_msg s))) \<and>
    in_range (float_of (double_of (fp_abs (toMeters T depth))))
      (range_min (scan_msg s)) (range_max (scan_msg s)) \<and>
    \<not> in_range (ranges (scan_msg s) ! nat index) (range_min (scan_msg s)) (range_max (scan_msg s))"
  then show r: "candidate T cam_model u depth = double_of (fp_abs (toMeters T depth))"
    using candidate_principal [of T depth cam_model u raw k] by simp
  show "ranges (scan_msg (pixel P T depth_msg cam_model v u s)) ! nat index =
        float_of (double_of (fp_abs (toMeters T depth)))"
    using h pixel_bin_reduced [of T depth_msg v u depth cam_model s index P]
    by (simp add: r reduced_def use_point_def)
next
  assume h: "row_offset cam_model scan_height = Some offset \<and> scan_height_member self = 1 \<and>
    width depth_msg = 1 \<and> depth_at T depth_msg offset 0 = Some depth \<and> valid T depth \<and>
    column_offset cam_model 0 = Fin 0 \<and> to_fp T depth = Fin raw \<and> constant_x T cam_model = Fin k \<and>
    bin_index T cam_model scan 0 = Some index \<and> 0 \<le> index \<and> index < int (length (ranges scan)) \<and>
    in_range (float_of (double_of (fp_abs (toMeters T depth)))) (range_min scan) (range_max scan) \<and>
    \<not> in_range (ranges scan ! nat index) (range_min scan) (range_max scan)"
  then have r: "candidate T cam_model 0 depth = double_of (fp_abs (toMeters T depth))"
    using candidate_principal [of T depth cam_model 0 raw k] by simp
  have "convert P T self depth_msg cam_model scan scan_height =
          pixel P T depth_msg cam_model offset 0
            \<lparr>scan_msg = scan, outside = ranges_outside P, visited = [], fault = None\<rparr>"
    using h by (intro convert_single_pixel) simp_all
  then show "convert P T self depth_msg cam_model scan scan_height =
        \<lparr>scan_msg = scan\<lparr>ranges :=
           (ranges scan)[nat index := float_of (double_of (fp_abs (toMeters T depth)))]\<rparr>,
         outside = ranges_outside P, visited = [(offset, 0)], fault = None\<rparr>"
    using h by (simp add: pixel_def index_at_def note_fault_def r use_point_def)
next
  assume "toMeters T depth = Fin z \<and> 0 \<le> z \<and> double_of (Fin z) = Fin z \<and> float_of (Fin z) = Fin z"
  then show "float_of (double_of (fp_abs (toMeters T depth))) = toMeters T depth" by simp
qed

theorem candidate_at_principal_point_witness:
  "candidate float_traits (example_camera 0 0) 0 (Fin 1.5) =
     lib_hypot
       (float_of (fp_mul
          (float_of (fp_mul
             (float_of (fp_sub (float_of (Fin (real (0::nat)))) (float_of (cx (example_camera 0 0)))))
             (to_fp float_traits (Fin 1.5))))
          (float_of (double_of (fp_div (toMeters float_traits (one float_traits))
             (fx (example_camera 0 0)))))))
       (toMeters float_traits (Fin 1.5)) \<and>
   column_offset (example_camera 0 0) 0 = Fin 0 \<and>
   candidate float_traits (example_camera 0 0) 0 (Fin 1.5) =
     double_of (fp_abs (toMeters float_traits (Fin 1.5))) \<and>
   ranges (scan_msg (pixel (example_platform NaN) float_traits
       (example_image float_traits 1 1 [Fin 1.5]) (example_camera 0 0) 0 0
       \<lparr>scan_msg = example_scan 0 0.5 1, outside = (\<lambda>i. NaN), visited = [], fault = None\<rparr>)) ! nat 0 =
     float_of (double_of (fp_abs (toMeters float_traits (Fin 1.5)))) \<and>
   convert (example_platform NaN) float_traits (example_converter 1)
       (example_image float_traits 1 1 [Fin 1.5]) (example_camera 0 0) (example_scan 0 0.5 1) 1 =
     \<lparr>scan_msg = (example_scan 0 0.5 1)\<lparr>ranges := (ranges (example_scan 0 0.5 1))
          [nat 0 := float_of (double_of (fp_abs (toMeters float_traits (Fin 1.5))))]\<rparr>,
      outside = ranges_outside (example_platform NaN), visited = [(0, 0)], fault = None\<rparr> \<and>
   float_of (double_of (fp_abs (toMeters float_traits (Fin 1.5)))) = toMeters float_traits (Fin 1.5) \<and>
   toMeters float_traits (Fin 1.5) = Fin 1.5"
proof -
  let ?image = "example_image float_traits 1 1 [Fin 1.5]"
  let ?P = "example_platform (NaN :: fp)"
  let ?s = "\<lparr>scan_msg = example_scan 0 0.5 1, outside = (\<lambda>i. NaN), visited = [], fault = None\<rparr>"
  have s: "scan_msg ?s = example_scan 0 0.5 1"
    by simp
  have valid: "valid float_traits (Fin 1.5)"
    by simp
  have column: "cx (example_camera 0 0) = Fin (real (0::nat)) \<and> (0::nat) < 2 ^ 24"
    by (simp add: example_defs)
  have h: "row_offset (example_camera 0 0) 1 = Some 0 \<and> scan_height_member (example_converter 1) = 1 \<and>
    width ?image = 1 \<and> depth_at float_traits ?image 0 0 = Some (Fin 1.5) \<and>
    valid float_traits (Fin 1.5) \<and>
    column_offset (example_camera 0 0) 0 = Fin 0 \<and> to_fp float_traits (Fin 1.5) = Fin 1.5 \<and>
    constant_x float_traits (example_camera 0 0) = Fin 1 \<and>
    bin_index float_traits (example_camera 0 0) (example_scan 0 0.5 1) 0 = Some 0 \<and> (0::int) \<le> 0 \<and>
    0 < int (length (ranges (example_scan 0 0.5 1))) \<and>
    in_range (float_of (double_of (fp_abs (toMeters float_traits (Fin 1.5)))))
      (range_min (example_scan 0 0.5 1)) (range_max (example_scan 0 0.5 1)) \<and>
    \<not> in_range (ranges (example_scan 0 0.5 1) ! nat 0) (range_min (example_scan 0 0.5 1))
      (range_max (example_scan 0 0.5 1))"
    by (simp add: example_defs convert_eval)
  have z: "toMeters float_traits (Fin 1.5) = Fin 1.5 \<and> (0::real) \<le> 1.5 \<and>
      double_of (Fin 1.5) = Fin 1.5 \<and> float_of (Fin 1.5) = Fin 1.5"
    by (simp add: convert_eval)
  note candidate_at_principal_point [where T = float_traits and depth = "Fin 1.5" and u = 0 and v = 0
      and s = ?s and cam_model = "example_camera 0 0" and scan_height = 1 and offset = 0
      and self = "example_converter 1" and depth_msg = ?image and raw = "1.5" and k = 1
      and scan = "example_scan 0 0.5 1" and index = 0 and z = "1.5" and P = ?P, unfolded s]
  with h z column valid show ?thesis
    by blast
qed




text \<open>
  Claim C5, as the specification states it, fails: the quotient is converted to \<open>int\<close>,
  which rounds toward zero, not down. A column of bearing 0 in a scan with
  \<open>angle_min = 0.5\<close> and \<open>angle_increment = 1\<close> has quotient \<open>-0.5\<close>: its floor is
  \<open>-1\<close>, the code computes bin 0 and stores the sample there.
\<close>

theorem bin_index_of_column_counterexample:
  "bearing float_traits (example_camera 0 0) 0 = Fin 0 \<and>
   angle_min (example_scan 0.5 0.5 1) = Fin 0.5 \<and>
   angle_increment (example_scan 0.5 0.5 1) = Fin 1 \<and>
   bin_quotient float_traits (example_camera 0 0) (example_scan 0.5 0.5 1) 0 = Fin (- 0.5) \<and>
   \<lfloor>- 0.5 :: real\<rfloor> = - 1 \<and>
   bin_index float_traits (example_camera 0 0) (example_scan 0.5 0.5 1) 0 = Some 0 \<and>
   convert (example_platform NaN) float_traits (example_converter 1)
       (example_image float_traits 1 1 [Fin 2]) (example_camera 0 0) (example_scan 0.5 0.5 1) 1 =
     \<lparr>scan_msg = (example_scan 0.5 0.5 1)\<lparr>ranges := [Fin 2]\<rparr>, outside = (\<lambda>i. NaN),
        visited = [(0, 0)], fault = None\<rparr>"
  by (simp add: example_defs convert_eval)

text \<open>
  Claim C5, amended. For every pixel the bearing is
  \<open>\<theta> = -atan2((u - principal_point_x) \<sqdot> constant_x, unit_scaling)\<close>, where the principal
  point and \<open>constant_x\<close> have been stored in \<open>float\<close>s, the difference is computed in
  \<open>float\<close> and the product in \<open>double\<close>. It is a function of the column alone: whatever
  the sample and the row, a pixel of column \<open>u\<close> changes no bin but the bin of \<open>u\<close>. The
  target bin is the quotient \<open>(\<theta> - angle_min) / angle_increment\<close>, computed in
  \<open>double\<close>, converted to \<open>int\<close>, that is rounded toward zero: it is the floor of the
  quotient exactly when the quotient is not negative or is an integer.
\<close>

theorem bin_index_of_column:
  "bearing T cam_model u =
     fp_neg (lib_atan2
       (double_of (fp_mul
          (float_of (fp_sub (float_of (Fin (real u))) (float_of (cx cam_model))))
          (float_of (double_of (fp_div (toMeters T (one T)) (fx cam_model))))))
       (toMeters T (one T))) \<and>
   bin_quotient T cam_model scan u =
     double_of (fp_div (double_of (fp_sub (bearing T cam_model u) (angle_min scan)))
       (angle_increment scan)) \<and>
   (\<forall>j. j \<noteq> nat (index_at P T cam_model (scan_msg s) u) \<longrightarrow>
      ranges (scan_msg (pixel P T depth_msg cam_model v u s)) ! j = ranges (scan_msg s) ! j) \<and>
   (bin_quotient T cam_model scan u = Fin q \<and> - (2 ^ 31) \<le> c_trunc q \<and> c_trunc q < 2 ^ 31 \<longrightarrow>
      bin_index T cam_model scan u = Some (c_trunc q) \<and>
      index_at P T cam_model scan u = c_trunc q) \<and>
   (c_trunc q = \<lfloor>q\<rfloor> \<longleftrightarrow> 0 \<le> q \<or> real_of_int \<lfloor>q\<rfloor> = q) \<and>
   \<bar>real_of_int (c_trunc q)\<bar> \<le> \<bar>q\<bar> \<and> \<bar>q - real_of_int (c_trunc q)\<bar> < 1"
proof (intro conjI impI allI)
  show "bearing T cam_model u =
     fp_neg (lib_atan2
       (double_of (fp_mul
          (float_of (fp_sub (float_of (Fin (real u))) (float_of (cx cam_model))))
          (float_of (double_of (fp_div (toMeters T (one T)) (fx cam_model))))))
       (toMeters T (one T)))"
    by (simp add: bearing_def column_offset_def center_x_def constant_x_def unit_scaling_def)
next
  show "bin_quotient T cam_model scan u =
     double_of (fp_div (double_of (fp_sub (bearing T cam_model u) (angle_min scan)))
       (angle_increment scan))"
    by (simp add: bin_quotient_def)
next
  fix j
  assume "j \<noteq> nat (index_at P T cam_model (scan_msg s) u)"
  then show "ranges (scan_msg (pixel P T depth_msg cam_model v u s)) ! j = ranges (scan_msg s) ! j"
    by (rule pixel_touches_one_bin)
next
  assume h: "bin_quotient T cam_model scan u = Fin q \<and> - (2 ^ 31) \<le> c_trunc q \<and> c_trunc q < 2 ^ 31"
  then show i: "bin_index T cam_model scan u = Some (c_trunc q)"
    by (simp add: bin_index_def)
  show "index_at P T cam_model scan u = c_trunc q"
    by (simp add: index_at_def i)
next
  show "c_trunc q = \<lfloor>q\<rfloor> \<longleftrightarrow> 0 \<le> q \<or> real_of_int \<lfloor>q\<rfloor> = q"
    by (rule c_trunc_floor)
next
  show "\<bar>real_of_int (c_trunc q)\<bar> \<le> \<bar>q\<bar>" and "\<bar>q - real_of_int (c_trunc q)\<bar> < 1"
    using c_trunc_toward_zero [of q] by simp_all
qed

theorem bin_index_of_column_witness:
  "bin_quotient float_traits (example_camera 0 0) (example_scan 0.5 0.5 2) 0 = Fin (- 0.5) \<and>
   c_trunc (- 0.5) = 0 \<and>
   bin_index float_traits (example_camera 0 0) (example_scan 0.5 0.5 2) 0 = Some (c_trunc (- 0.5)) \<and>
   index_at (example_platform NaN) float_traits (example_camera 0 0) (example_scan 0.5 0.5 2) 0 =
     c_trunc (- 0.5) \<and>
   ranges (scan_msg (pixel (example_platform NaN) float_traits (example_image float_traits 1 1 [Fin 2])
       (example_camera 0 0) 0 0
       \<lparr>scan_msg = example_scan 0.5 0.5 2, outside = (\<lambda>i. NaN), visited = [], fault = None\<rparr>)) ! 1 =
     ranges (example_scan 0.5 0.5 2) ! 1"
proof -
  let ?s = "\<lparr>scan_msg = example_scan 0.5 0.5 2, outside = (\<lambda>i. NaN), visited = [], fault = None\<rparr>"
  let ?P = "example_platform (NaN :: fp)"
  have s: "scan_msg ?s = example_scan 0.5 0.5 2"
    by simp
  have q: "bin_quotient float_traits (example_camera 0 0) (example_scan 0.5 0.5 2) 0 = Fin (- 0.5)"
    by (simp add: example_defs convert_eval)
  have t: "c_trunc (- 0.5) = 0" "- (2 ^ 31) \<le> c_trunc (- 0.5)" "c_trunc (- 0.5) < 2 ^ 31"
    by (simp_all add: c_trunc_eval)
  note a = bin_index_of_column [where T = float_traits and cam_model = "example_camera 0 0" and u = 0
      and s = ?s and depth_msg = "example_image float_traits 1 1 [Fin 2]" and v = 0
      and scan = "example_scan 0.5 0.5 2" and q = "- 0.5" and P = ?P, unfolded s]
  from a q t have i: "bin_index float_traits (example_camera 0 0) (example_scan 0.5 0.5 2) 0 =
      Some (c_trunc (- 0.5))"
    and i': "index_at ?P float_traits (example_camera 0 0) (example_scan 0.5 0.5 2) 0 = c_trunc (- 0.5)"
    by blast+
  have other: "(1::nat) \<noteq> nat (index_at ?P float_traits (example_camera 0 0) (example_scan 0.5 0.5 2) 0)"
    using i' t(1) by simp
  from a other have "ranges (scan_msg (pixel ?P float_traits (example_image float_traits 1 1 [Fin 2])
       (example_camera 0 0) 0 0 ?s)) ! 1 = ranges (example_scan 0.5 0.5 2) ! 1"
    by blast
  with q t i i' show ?thesis
    by blast
qed

text \<open>
  Claim C6, as the specification states it, fails: with the principal point at row
  239.75 and a window of 2 rows the code starts at row 238, while rounding
  \<open>239.75 - 2/2\<close> gives 239. All the values involved are values of type \<open>float\<close>.
\<close>

theorem convert_window_rows_counterexample:
  "row_offset (example_camera 0 239.75) 2 = Some 238 \<and> round (239.75 - 2 / 2 :: real) = 239"
  by (simp add: example_defs convert_eval round_def)

text \<open>
  Claim C6, amended. The starting row is \<open>principal_point_y - scan_height/2\<close> computed as
  the code computes it: the principal point has been stored in a \<open>float\<close>, the quotient is
  taken in \<open>int\<close> (rounding toward zero) and converted to \<open>float\<close>, the difference is a
  \<open>float\<close>, and its conversion to \<open>int\<close> rounds toward zero, not to the nearest integer:
  the offset is within 1 of that \<open>float\<close> difference and not larger in magnitude. The
  \<open>float\<close> difference is the exact difference when the principal point, the quotient and
  the exact difference are values of type \<open>float\<close>. When the converter's stored
  \<open>scan_height_\<close> is the \<open>scan_height\<close> supplied, the rows read are exactly \<open>offset\<close> to
  \<open>offset + scan_height - 1\<close>.
\<close>

theorem convert_window_rows:
  "row_difference cam_model scan_height =
     float_of (fp_sub (float_of (cy cam_model)) (float_of (Fin (of_int (c_div scan_height 2))))) \<and>
   (0 \<le> scan_height \<longrightarrow> c_div scan_height 2 = scan_height div 2) \<and>
   (cy cam_model = Fin y \<and> float_of (Fin y) = Fin y \<and>
    float_of (Fin (of_int (c_div scan_height 2))) = Fin (of_int (c_div scan_height 2)) \<and>
    float_of (Fin (y - of_int (c_div scan_height 2))) = Fin (y - of_int (c_div scan_height 2)) \<longrightarrow>
      row_difference cam_model scan_height = Fin (y - of_int (c_div scan_height 2))) \<and>
   (row_difference cam_model scan_height = Fin d \<and> - (2 ^ 31) \<le> c_trunc d \<and> c_trunc d < 2 ^ 31 \<longrightarrow>
      row_offset cam_model scan_height = Some (c_trunc d) \<and>
      start_row P cam_model scan_height = c_trunc d \<and>
      \<bar>real_of_int (c_trunc d)\<bar> \<le> \<bar>d\<bar> \<and> \<bar>d - real_of_int (c_trunc d)\<bar> < 1) \<and>
   (row_offset cam_model scan_height = Some offset \<and> scan_height_member self = scan_height \<longrightarrow>
      visited (convert P T self depth_msg cam_model scan scan_height) =
        window_pixels offset scan_height (width depth_msg) \<and>
      (0 < width depth_msg \<longrightarrow>
         fst ` set (visited (convert P T self depth_msg cam_model scan scan_height)) =
           {offset..offset + scan_height - 1}))"
proof (intro conjI impI)
  show "row_difference cam_model scan_height =
     float_of (fp_sub (float_of (cy cam_model)) (float_of (Fin (of_int (c_div scan_height 2)))))"
    by (simp add: row_difference_def center_y_def)
next
  assume "0 \<le> scan_height"
  then show "c_div scan_height 2 = scan_height div 2"
    by (simp add: c_div_nonneg)
next
  assume "cy cam_model = Fin y \<and> float_of (Fin y) = Fin y \<and>
    float_of (Fin (of_int (c_div scan_height 2))) = Fin (of_int (c_div scan_height 2)) \<and>
    float_of (Fin (y - of_int (c_div scan_height 2))) = Fin (y - of_int (c_div scan_height 2))"
  then show "row_difference cam_model scan_height = Fin (y - of_int (c_div scan_height 2))"
    by (simp add: row_difference_def center_y_def)
next
  assume h: "row_difference cam_model scan_height = Fin d \<and> - (2 ^ 31) \<le> c_trunc d \<and>
    c_trunc d < 2 ^ 31"
  then show off: "row_offset cam_model scan_height = Some (c_trunc d)"
    by (simp add: row_offset_def)
  then show "start_row P cam_model scan_height = c_trunc d"
    by simp
  show "\<bar>real_of_int (c_trunc d)\<bar> \<le> \<bar>d\<bar>" and "\<bar>d - real_of_int (c_trunc d)\<bar> < 1"
    using c_trunc_toward_zero [of d] by simp_all
next
  assume h: "row_offset cam_model scan_height = Some offset \<and> scan_height_member self = scan_height"
  then show vis: "visited (convert P T self depth_msg cam_model scan scan_height) =
        window_pixels offset scan_height (width depth_msg)"
    by (simp add: convert_visited)
  show "fst ` set (visited (convert P T self depth_msg cam_model scan scan_height)) =
           {offset..offset + scan_height - 1}"
    if "0 < width depth_msg"
    using that by (simp add: vis window_pixels_rows)
qed

theorem convert_window_rows_witness:
  "c_div 2 2 = 2 div 2 \<and>
   row_difference (example_camera 0 1.5) 2 = Fin (1.5 - of_int (c_div 2 2)) \<and>
   c_trunc 0.5 = 0 \<and>
   row_offset (example_camera 0 1.5) 2 = Some (c_trunc 0.5) \<and>
   start_row (example_platform NaN) (example_camera 0 1.5) 2 = c_trunc 0.5 \<and>
   visited (convert (example_platform NaN) float_traits (example_converter 2)
       (example_image float_traits 3 1 [Fin 1, Fin 2, Fin 3]) (example_camera 0 1.5)
       (example_scan 0 0.5 1) 2) = window_pixels 0 2 1 \<and>
   fst ` set (visited (convert (example_platform NaN) float_traits (example_converter 2)
       (example_image float_traits 3 1 [Fin 1, Fin 2, Fin 3]) (example_camera 0 1.5)
       (example_scan 0 0.5 1) 2)) = {0..0 + 2 - 1}"
proof -
  let ?image = "example_image float_traits 3 1 [Fin 1, Fin 2, Fin 3]"
  let ?P = "example_platform (NaN :: fp)"
  have nn: "(0::int) \<le> 2"
    by simp
  have k: "c_div 2 2 = 1"
    by (simp add: c_div_def)
  have exact: "cy (example_camera 0 1.5) = Fin 1.5 \<and> float_of (Fin 1.5) = Fin 1.5 \<and>
    float_of (Fin (of_int (c_div 2 2))) = Fin (of_int (c_div 2 2)) \<and>
    float_of (Fin (1.5 - of_int (c_div 2 2))) = Fin (1.5 - of_int (c_div 2 2))"
    by (simp add: example_defs k float_of_eval)
  have d: "row_difference (example_camera 0 1.5) 2 = Fin 0.5"
    by (simp add: example_defs convert_eval)
  have t: "c_trunc 0.5 = 0" "- (2 ^ 31) \<le> c_trunc 0.5" "c_trunc 0.5 < 2 ^ 31"
    by (simp_all add: c_trunc_eval)
  have off: "row_offset (example_camera 0 1.5) 2 = Some 0"
    by (simp add: example_defs convert_eval)
  have member: "scan_height_member (example_converter 2) = 2"
    by (simp add: example_defs)
  have w: "width ?image = 1"
    by (simp add: example_defs)
  have pos: "0 < (1::nat)"
    by simp
  note a = convert_window_rows [where cam_model = "example_camera 0 1.5" and scan_height = 2
      and y = "1.5" and d = "0.5" and offset = 0 and self = "example_converter 2" and P = ?P
      and T = float_traits and depth_msg = ?image and scan = "example_scan 0 0.5 1", unfolded w]
  from a nn exact d t off member pos show ?thesis
    by blast
qed

text \<open>
  Claim C7, as the specification states it, fails for the integer encoding: the invalid
  sample 0 is offered to the reduction as the candidate range 0, which is inside an
  acceptance window with a negative \<open>range_min\<close>, and the bin is set to 0.
\<close>

theorem invalid_sample_keeps_bin_counterexample:
  "\<not> valid uint16_traits 0 \<and>
   ranges (example_scan 0 (- 1) 1) = [PInf] \<and>
   range_min (example_scan 0 (- 1) 1) = Fin (- 1) \<and>
   convert (example_platform 0) uint16_traits (example_converter 1)
       (example_image uint16_traits 1 1 [0]) (example_camera 0 0) (example_scan 0 (- 1) 1) 1 =
     \<lparr>scan_msg = (example_scan 0 (- 1) 1)\<lparr>ranges := [Fin 0]\<rparr>, outside = (\<lambda>i. NaN),
        visited = [(0, 0)], fault = None\<rparr>"
proof -
  have "column_offset (example_camera 0 0) 0 = Fin 0"
    by (simp add: example_defs column_offset_def center_x_def)
  then have "bearing uint16_traits (example_camera 0 0) 0 = Fin 0"
    by (intro uint16_bearing_principal) (simp_all add: example_defs)
  then have "bin_quotient uint16_traits (example_camera 0 0) (example_scan 0 (- 1) 1) 0 = Fin 0"
    by (simp add: bin_quotient_def example_defs)
  then show ?thesis
    by (simp add: example_defs convert_def start_row_def row_offset_def row_difference_def
        center_y_def c_div_def c_trunc_eval row_loop.simps col_loop.simps pixel_def sample_at_def
        depth_at_def row_step_def index_at_def bin_index_def candidate_def use_point_def
        in_range_def note_fault_def Let_def)
qed

text \<open>
  Claim C7, amended. An invalid float sample (NaN, \<open>\<plusminus>\<close>Infinity) is never in range, and
  an invalid integer sample (0) is not in range unless 0 lies strictly inside the
  acceptance window (\<open>range_min < 0 < range_max\<close>). A pixel whose candidate is not in
  range leaves the scan, and the memory beside it, as they are, and meets undefined
  behaviour exactly when the bin index of its column is not inside \<open>ranges\<close>, as any other
  sample does. No sample ends the loop: every pixel of the window is processed. A bin
  for which every pixel of the window offers a candidate that is not in range holds its
  initial value when \<open>convert\<close> returns.
\<close>

theorem invalid_sample_keeps_bin:
  "(\<not> valid float_traits sample \<longrightarrow>
      \<not> in_range (float_of (candidate float_traits cam_model u sample)) lo hi) \<and>
   (\<not> valid uint16_traits raw \<and> \<not> in_range (Fin 0) lo hi \<longrightarrow>
      \<not> in_range (float_of (candidate uint16_traits cam_model u raw)) lo hi) \<and>
   (fault s = None \<and> depth_at T depth_msg v u = Some depth \<and>
    \<not> in_range (float_of (candidate T cam_model u depth))
        (range_min (scan_msg s)) (range_max (scan_msg s)) \<longrightarrow>
      scan_msg (pixel P T depth_msg cam_model v u s) = scan_msg s \<and>
      outside (pixel P T depth_msg cam_model v u s) = outside s \<and>
      (fault (pixel P T depth_msg cam_model v u s) = None \<longleftrightarrow> bin_ok T cam_model (scan_msg s) u)) \<and>
   visited (convert P T self depth_msg cam_model scan scan_height) =
     window_pixels (start_row P cam_model scan_height) (scan_height_member self) (width depth_msg) \<and>
   (0 \<le> j \<and>
    (\<forall>v u.
       start_row P cam_model scan_height \<le> v \<and>
       v < start_row P cam_model scan_height + scan_height_member self \<and> u < width depth_msg \<and>
       index_at P T cam_model scan u = j \<longrightarrow>
         \<not> in_range (float_of (candidate T cam_model u (sample_at P T depth_msg v u)))
             (range_min scan) (range_max scan)) \<longrightarrow>
      ranges (scan_msg (convert P T self depth_msg cam_model scan scan_height)) ! nat j =
        ranges scan ! nat j)"
proof (intro conjI impI)
  assume "\<not> valid float_traits sample"
  then show "\<not> in_range (float_of (candidate float_traits cam_model u sample)) lo hi"
    by (rule float_invalid_not_in_range)
next
  assume "\<not> valid uint16_traits raw \<and> \<not> in_range (Fin 0) lo hi"
  then show "\<not> in_range (float_of (candidate uint16_traits cam_model u raw)) lo hi"
    by (simp add: uint16_invalid_not_in_range)
next
  assume h: "fault s = None \<and> depth_at T depth_msg v u = Some depth \<and>
    \<not> in_range (float_of (candidate T cam_model u depth))
        (range_min (scan_msg s)) (range_max (scan_msg s))"
  then show "scan_msg (pixel P T depth_msg cam_model v u s) = scan_msg s"
    and "outside (pixel P T depth_msg cam_model v u s) = outside s"
    by (simp_all add: pixel_not_in_range)
  show "fault (pixel P T depth_msg cam_model v u s) = None \<longleftrightarrow> bin_ok T cam_model (scan_msg s) u"
    using h by (simp add: pixel_fault_None)
next
  show "visited (convert P T self depth_msg cam_model scan scan_height) =
     window_pixels (start_row P cam_model scan_height) (scan_height_member self) (width depth_msg)"
    by (rule convert_visited)
next
  assume h: "0 \<le> j \<and>
    (\<forall>v u.
       start_row P cam_model scan_height \<le> v \<and>
       v < start_row P cam_model scan_height + scan_height_member self \<and> u < width depth_msg \<and>
       index_at P T cam_model scan u = j \<longrightarrow>
         \<not> in_range (float_of (candidate T cam_model u (sample_at P T depth_msg v u)))
             (range_min scan) (range_max scan))"
  show "ranges (scan_msg (convert P T self depth_msg cam_model scan scan_height)) ! nat j =
        ranges scan ! nat j"
  proof (rule convert_bin_kept)
    show "0 \<le> j" using h by simp
  next
    fix v u
    assume "start_row P cam_model scan_height \<le> v"
      "v < start_row P cam_model scan_height + scan_height_member self" "u < width depth_msg"
      "index_at P T cam_model scan u = j"
    with h show "\<not> in_range (float_of (candidate T cam_model u (sample_at P T depth_msg v u)))
        (range_min scan) (range_max scan)"
      by blast
  qed
qed

theorem invalid_sample_keeps_bin_witness:
  "\<not> in_range (float_of (candidate float_traits (example_camera 0 1) 0 NaN)) (Fin 0.5) (Fin 10) \<and>
   \<not> in_range (float_of (candidate uint16_traits (example_camera 0 1) 0 0)) (Fin 0.5) (Fin 10) \<and>
   scan_msg (pixel (example_platform NaN) float_traits (example_image float_traits 2 1 [NaN, PInf])
       (example_camera 0 1) 0 0
       \<lparr>scan_msg = example_scan 0 0.5 1, outside = (\<lambda>i. NaN), visited = [], fault = None\<rparr>) =
     example_scan 0 0.5 1 \<and>
   fault (pixel (example_platform NaN) float_traits (example_image float_traits 2 1 [NaN, PInf])
       (example_camera 0 1) 0 0
       \<lparr>scan_msg = example_scan 0 0.5 1, outside = (\<lambda>i. NaN), visited = [], fault = None\<rparr>) = None \<and>
   ranges (scan_msg (convert (example_platform NaN) float_traits (example_converter 2)
       (example_image float_traits 2 1 [NaN, PInf]) (example_camera 0 1) (example_scan 0 0.5 1) 2)) ! nat 0 =
     ranges (example_scan 0 0.5 1) ! nat 0"
proof -
  let ?image = "example_image float_traits 2 1 [NaN, PInf]"
  let ?P = "example_platform (NaN :: fp)"
  let ?s = "\<lparr>scan_msg = example_scan 0 0.5 1, outside = (\<lambda>i. NaN), visited = [], fault = None\<rparr>"
  have s: "fault ?s = None" "scan_msg ?s = example_scan 0 0.5 1"
    by simp_all
  have invalid: "\<not> valid float_traits NaN" "\<not> valid uint16_traits 0 \<and> \<not> in_range (Fin 0) (Fin 0.5) (Fin 10)"
    by (simp_all add: in_range_def)
  have nan: "depth_at float_traits ?image 0 0 = Some NaN"
    by (simp add: example_defs depth_at_def row_step_def)
  have out: "\<not> in_range (float_of (candidate float_traits (example_camera 0 1) 0 NaN))
      (range_min (example_scan 0 0.5 1)) (range_max (example_scan 0 0.5 1))"
    by (simp add: candidate_def in_range_def)
  have bin: "bin_ok float_traits (example_camera 0 1) (example_scan 0 0.5 1) 0"
    by (simp add: example_defs bin_ok_def convert_eval)
  have window: "(0::int) \<le> 0 \<and>
    (\<forall>v u.
       start_row ?P (example_camera 0 1) 2 \<le> v \<and>
       v < start_row ?P (example_camera 0 1) 2 + scan_height_member (example_converter 2) \<and>
       u < width ?image \<and>
       index_at ?P float_traits (example_camera 0 1) (example_scan 0 0.5 1) u = 0 \<longrightarrow>
         \<not> in_range (float_of (candidate float_traits (example_camera 0 1) u
               (sample_at ?P float_traits ?image v u)))
           (range_min (example_scan 0 0.5 1)) (range_max (example_scan 0 0.5 1)))"
  proof (intro conjI allI impI)
    fix v :: int and u :: nat
    have "sample_at ?P float_traits ?image v u \<in> {NaN, PInf}"
      using depth_at_data [of float_traits ?image v u]
      by (cases "depth_at float_traits ?image v u") (auto simp add: sample_at_def example_defs)
    then have "\<not> valid float_traits (sample_at ?P float_traits ?image v u)"
      by auto
    then show "\<not> in_range (float_of (candidate float_traits (example_camera 0 1) u
               (sample_at ?P float_traits ?image v u)))
           (range_min (example_scan 0 0.5 1)) (range_max (example_scan 0 0.5 1))"
      by (rule float_invalid_not_in_range)
  qed simp
  note invalid_sample_keeps_bin [where sample = NaN and cam_model = "example_camera 0 1" and u = 0
      and lo = "Fin 0.5" and hi = "Fin 10" and raw = 0 and s = ?s and T = float_traits
      and depth_msg = ?image and v = 0 and depth = NaN and j = 0 and scan_height = 2
      and self = "example_converter 2" and scan = "example_scan 0 0.5 1" and P = ?P, unfolded s]
  with invalid nan out bin window show ?thesis
    by blast
qed



text \<open>
  Claim C9, as the specification states it, fails: the window of \<open>n\<close> rows need not
  contain the row of the window of one row, because the offset is computed in \<open>float\<close>.
  With the principal point at row 16777218 and \<open>scan_height = 2\<close> the difference
  \<open>16777218 - 1\<close> is rounded to 16777216: the window is rows 16777216 and 16777217, while
  the window of one row is row 16777218. In the image below (all rows inside it, no
  undefined behaviour) only row 16777218 holds a valid sample: the single row sets bin 0
  to 2, the taller window leaves the sentinel.
\<close>

theorem taller_window_is_closer_counterexample:
  "row_offset (example_camera 0 16777218) 1 = Some 16777218 \<and>
   row_offset (example_camera 0 16777218) 2 = Some 16777216 \<and>
   height (example_image float_traits 16777219 1 (replicate 16777218 NaN @ [Fin 2])) = 16777219 \<and>
   wf_image float_traits (example_image float_traits 16777219 1 (replicate 16777218 NaN @ [Fin 2])) \<and>
   ranges (example_scan 0 0.5 1) = [PInf] \<and>
   convert (example_platform NaN) float_traits (example_converter 2)
       (example_image float_traits 16777219 1 (replicate 16777218 NaN @ [Fin 2]))
       (example_camera 0 16777218) (example_scan 0 0.5 1) 2 =
     \<lparr>scan_msg = example_scan 0 0.5 1, outside = (\<lambda>i. NaN),
        visited = [(16777216, 0), (16777217, 0)], fault = None\<rparr> \<and>
   convert (example_platform NaN) float_traits (example_converter 1)
       (example_image float_traits 16777219 1 (replicate 16777218 NaN @ [Fin 2]))
       (example_camera 0 16777218) (example_scan 0 0.5 1) 1 =
     \<lparr>scan_msg = (example_scan 0 0.5 1)\<lparr>ranges := [Fin 2]\<rparr>, outside = (\<lambda>i. NaN),
        visited = [(16777218, 0)], fault = None\<rparr> \<and>
   \<not> closer_eq PInf (Fin 2)"
  by (simp add: example_defs convert_eval wf_image_def fp_hypot_zero float_of_tie float_of_even
      nth_append)

text \<open>
  Claim C9, amended. For every depth image, intrinsics and platform, and a scan whose bins
  hold the sentinel: when the window of the conversion with \<open>scan_height = n\<close>,
  \<open>n \<ge> 1\<close>, contains the row of the conversion with \<open>scan_height = 1\<close> (each
  converter's stored \<open>scan_height_\<close> being the value supplied), every bin of the taller
  window's result is at least as close as the same bin of the single row's result, in the
  order in which the sentinel is the largest value. The window of \<open>n\<close> rows does contain
  that row whenever the two differences \<open>center_y - scan_height/2\<close> are computed without
  rounding error.
\<close>

theorem taller_window_is_closer:
  "(row_difference cam_model 1 = Fin c \<and>
    row_difference cam_model n = Fin (c - real_of_int (c_div n 2)) \<and>
    row_offset cam_model 1 = Some centre \<and> row_offset cam_model n = Some offset \<and> 1 \<le> n \<longrightarrow>
      offset \<le> centre \<and> centre < offset + n) \<and>
   (scan_height_member single = 1 \<and> scan_height_member taller = n \<and> 1 \<le> n \<and>
    start_row P cam_model n \<le> start_row P cam_model 1 \<and>
    start_row P cam_model 1 < start_row P cam_model n + n \<and>
    (\<forall>x\<in>set (ranges scan). x = PInf) \<and> j < length (ranges scan) \<longrightarrow>
      closer_eq (ranges (scan_msg (convert P T taller depth_msg cam_model scan n)) ! j)
        (ranges (scan_msg (convert P T single depth_msg cam_model scan 1)) ! j))"
proof (intro conjI impI)
  assume "row_difference cam_model 1 = Fin c \<and>
    row_difference cam_model n = Fin (c - real_of_int (c_div n 2)) \<and>
    row_offset cam_model 1 = Some centre \<and> row_offset cam_model n = Some offset \<and> 1 \<le> n"
  then have "offset \<le> centre \<and> centre < offset + n"
    by (intro row_offset_centre [where cam_model = cam_model and c = c]) simp_all
  then show "offset \<le> centre" and "centre < offset + n"
    by simp_all
next
  assume h: "scan_height_member single = 1 \<and> scan_height_member taller = n \<and> 1 \<le> n \<and>
    start_row P cam_model n \<le> start_row P cam_model 1 \<and>
    start_row P cam_model 1 < start_row P cam_model n + n \<and>
    (\<forall>x\<in>set (ranges scan). x = PInf) \<and> j < length (ranges scan)"
  let ?one = "convert P T single depth_msg cam_model scan 1"
  let ?many = "convert P T taller depth_msg cam_model scan n"
  let ?r = "\<lambda>v u. float_of (candidate T cam_model u (sample_at P T depth_msg v u))"
  have v1: "visited ?one = window_pixels (start_row P cam_model 1) 1 (width depth_msg)"
    using h by (simp add: convert_visited)
  have vn: "visited ?many = window_pixels (start_row P cam_model n) n (width depth_msg)"
    using h by (simp add: convert_visited)
  have j: "j < length (ranges scan)"
    using h by simp
  from convert_provenance [OF j, of P T single depth_msg cam_model 1]
  consider "ranges (scan_msg ?one) ! j = ranges scan ! j"
    | v u where "(v, u) \<in> set (visited ?one)" "index_at P T cam_model scan u = int j"
        "ranges (scan_msg ?one) ! j = ?r v u" "in_range (?r v u) (range_min scan) (range_max scan)"
    by blast
  then show "closer_eq (ranges (scan_msg ?many) ! j) (ranges (scan_msg ?one) ! j)"
  proof cases
    case 1
    with h have "ranges (scan_msg ?one) ! j = PInf" by simp
    then show ?thesis by simp
  next
    case 2
    from 2(1) have "v = start_row P cam_model 1" "u < width depth_msg"
      by (simp_all add: v1 window_pixels_member)
    with h have "(v, u) \<in> set (visited ?many)"
      by (simp add: vn window_pixels_member)
    from convert_best [OF this 2(2) _ _ 2(4)] j
    have "closer_eq (ranges (scan_msg ?many) ! nat (int j)) (?r v u)"
      by simp
    with 2(3) show ?thesis by simp
  qed
qed

theorem taller_window_is_closer_witness:
  "(0::int) \<le> 1 \<and> (1::int) < 0 + 2 \<and>
   closer_eq
     (ranges (scan_msg (convert (example_platform NaN) float_traits (example_converter 2)
        (example_image float_traits 2 1 [Fin 1, Fin 3]) (example_camera 0 1)
        (example_scan 0 0.5 1) 2)) ! 0)
     (ranges (scan_msg (convert (example_platform NaN) float_traits (example_converter 1)
        (example_image float_traits 2 1 [Fin 1, Fin 3]) (example_camera 0 1)
        (example_scan 0 0.5 1) 1)) ! 0) \<and>
   ranges (scan_msg (convert (example_platform NaN) float_traits (example_converter 2)
        (example_image float_traits 2 1 [Fin 1, Fin 3]) (example_camera 0 1)
        (example_scan 0 0.5 1) 2)) = [Fin 1] \<and>
   ranges (scan_msg (convert (example_platform NaN) float_traits (example_converter 1)
        (example_image float_traits 2 1 [Fin 1, Fin 3]) (example_camera 0 1)
        (example_scan 0 0.5 1) 1)) = [Fin 3]"
proof -
  let ?image = "example_image float_traits 2 1 [Fin 1, Fin 3]"
  let ?P = "example_platform (NaN :: fp)"
  have d: "row_difference (example_camera 0 1) 1 = Fin 1 \<and>
    row_difference (example_camera 0 1) 2 = Fin (1 - real_of_int (c_div 2 2)) \<and>
    row_offset (example_camera 0 1) 1 = Some 1 \<and> row_offset (example_camera 0 1) 2 = Some 0 \<and>
    (1::int) \<le> 2"
    by (simp add: example_defs convert_eval fp_hypot_zero)
  then have start: "start_row ?P (example_camera 0 1) 1 = 1" "start_row ?P (example_camera 0 1) 2 = 0"
    by simp_all
  have h: "scan_height_member (example_converter 1) = 1 \<and> scan_height_member (example_converter 2) = 2 \<and>
    (1::int) \<le> 2 \<and> (\<forall>x\<in>set (ranges (example_scan 0 0.5 1)). x = PInf) \<and>
    0 < length (ranges (example_scan 0 0.5 1))"
    by (simp add: example_defs)
  have r3: "ranges (scan_msg (convert ?P float_traits (example_converter 2) ?image (example_camera 0 1)
        (example_scan 0 0.5 1) 2)) = [Fin 1]"
    by (simp add: example_defs convert_eval fp_hypot_zero)
  have r1: "ranges (scan_msg (convert ?P float_traits (example_converter 1) ?image (example_camera 0 1)
        (example_scan 0 0.5 1) 1)) = [Fin 3]"
    by (simp add: example_defs convert_eval fp_hypot_zero)
  note a = taller_window_is_closer [where cam_model = "example_camera 0 1" and c = 1 and n = 2
      and centre = 1 and offset = 0 and single = "example_converter 1"
      and taller = "example_converter 2" and P = ?P and scan = "example_scan 0 0.5 1" and j = 0
      and T = float_traits and depth_msg = ?image, unfolded start]
  from a d h r3 r1 show ?thesis
    by blast
qed

text \<open>
  Claim C10. For every call of \<open>convert\<close> the rows that are read are the rows of the
  window that starts at \<open>offset\<close> and has \<open>scan_height_\<close> rows, the stored member of the
  converter: the pixels read are exactly the pixels of that window, in row-major order,
  in every run. The argument \<open>scan_height\<close> enters only through the offset: two arguments
  that give the same offset give the same run.
\<close>

theorem convert_iterates_member_rows:
  "visited (convert P T self depth_msg cam_model scan scan_height) =
     window_pixels (start_row P cam_model scan_height) (scan_height_member self) (width depth_msg) \<and>
   (0 < width depth_msg \<longrightarrow>
      fst ` set (visited (convert P T self depth_msg cam_model scan scan_height)) =
        {start_row P cam_model scan_height ..
           start_row P cam_model scan_height + scan_height_member self - 1}) \<and>
   (row_offset cam_model scan_height = Some offset \<longrightarrow>
      visited (convert P T self depth_msg cam_model scan scan_height) =
        window_pixels offset (scan_height_member self) (width depth_msg)) \<and>
   (row_offset cam_model scan_height = Some offset \<and>
    row_offset cam_model scan_height' = Some offset \<longrightarrow>
      convert P T self depth_msg cam_model scan scan_height =
        convert P T self depth_msg cam_model scan scan_height') \<and>
   (start_row P cam_model scan_height = start_row P cam_model scan_height' \<and>
    (row_offset cam_model scan_height = None \<longleftrightarrow> row_offset cam_model scan_height' = None) \<longrightarrow>
      convert P T self depth_msg cam_model scan scan_height =
        convert P T self depth_msg cam_model scan scan_height')"
proof (intro conjI impI)
  show v: "visited (convert P T self depth_msg cam_model scan scan_height) =
     window_pixels (start_row P cam_model scan_height) (scan_height_member self) (width depth_msg)"
    by (rule convert_visited)
  show "fst ` set (visited (convert P T self depth_msg cam_model scan scan_height)) =
        {start_row P cam_model scan_height ..
           start_row P cam_model scan_height + scan_height_member self - 1}"
    if "0 < width depth_msg"
    using that by (simp add: v window_pixels_rows)
  show "visited (convert P T self depth_msg cam_model scan scan_height) =
        window_pixels offset (scan_height_member self) (width depth_msg)"
    if "row_offset cam_model scan_height = Some offset"
    using that by (simp add: v)
next
  assume "row_offset cam_model scan_height = Some offset \<and>
    row_offset cam_model scan_height' = Some offset"
  then show "convert P T self depth_msg cam_model scan scan_height =
        convert P T self depth_msg cam_model scan scan_height'"
    by (simp add: convert_def)
next
  assume "start_row P cam_model scan_height = start_row P cam_model scan_height' \<and>
    (row_offset cam_model scan_height = None \<longleftrightarrow> row_offset cam_model scan_height' = None)"
  then show "convert P T self depth_msg cam_model scan scan_height =
        convert P T self depth_msg cam_model scan scan_height'"
    by (simp add: convert_def)
qed

theorem convert_iterates_member_rows_witness:
  "row_offset (example_camera 0 1) 1 = Some 1 \<and>
   row_offset (example_camera 0 1) 0 = Some 1 \<and>
   scan_height_member (example_converter 2) = 2 \<and>
   visited (convert (example_platform NaN) float_traits (example_converter 2)
       (example_image float_traits 3 1 [Fin 1, Fin 2, Fin 3]) (example_camera 0 1)
       (example_scan 0 0.5 1) 1) = window_pixels 1 2 1 \<and>
   fst ` set (visited (convert (example_platform NaN) float_traits (example_converter 2)
       (example_image float_traits 3 1 [Fin 1, Fin 2, Fin 3]) (example_camera 0 1)
       (example_scan 0 0.5 1) 1)) = {1..1 + 2 - 1} \<and>
   convert (example_platform NaN) float_traits (example_converter 2)
       (example_image float_traits 3 1 [Fin 1, Fin 2, Fin 3]) (example_camera 0 1)
       (example_scan 0 0.5 1) 1 =
   convert (example_platform NaN) float_traits (example_converter 2)
       (example_image float_traits 3 1 [Fin 1, Fin 2, Fin 3]) (example_camera 0 1)
       (example_scan 0 0.5 1) 0"
proof -
  let ?image = "example_image float_traits 3 1 [Fin 1, Fin 2, Fin 3]"
  let ?P = "example_platform (NaN :: fp)"
  have off: "row_offset (example_camera 0 1) 1 = Some 1" "row_offset (example_camera 0 1) 0 = Some 1"
    by (simp_all add: example_defs convert_eval)
  have start: "start_row ?P (example_camera 0 1) 1 = 1"
    using off by simp
  have cfg: "scan_height_member (example_converter 2) = 2" "width ?image = 1"
    by (simp_all add: example_defs)
  have pos: "0 < (1::nat)"
    by simp
  note convert_iterates_member_rows [where cam_model = "example_camera 0 1" and scan_height = 1
      and T = float_traits and self = "example_converter 2" and depth_msg = ?image
      and scan = "example_scan 0 0.5 1" and scan_height' = 0 and offset = 1 and P = ?P,
      unfolded start cfg]
  then show ?thesis
    using off cfg pos by blast
qed

end
